theory Spec2Isabelle
  imports Complex_Main
begin

section \<open>Python strings\<close>

text \<open>
  A Python \<open>str\<close> is a sequence of Unicode code points, and \<open>len\<close> counts code
  points.  A string is therefore a list of natural numbers, one per code point; a literal
  of the source that only uses ASCII is written \<open>lit ''...''\<close>, and the pictographs of
  the message header are given by their code points.
\<close>

type_synonym pystr = "nat list"

definition lit :: "string \<Rightarrow> pystr" where
  "lit s = map of_char s"

text \<open>\<open>str(n)\<close> of a non-negative integer: its decimal digits.\<close>

fun show_nat :: "nat \<Rightarrow> pystr" where
  "show_nat n = (if n < 10 then [48 + n] else show_nat (n div 10) @ [48 + n mod 10])"

declare show_nat.simps [simp del]

text \<open>\<open>sep.join(xs)\<close>.\<close>

fun join :: "pystr \<Rightarrow> pystr list \<Rightarrow> pystr" where
  "join sep [] = []"
| "join sep [x] = x"
| "join sep (x # y # ys) = x @ sep @ join sep (y # ys)"

section \<open>utils.py: format\_datetime\<close>

record datetime =
  year :: nat
  month :: nat
  day :: nat
  hour :: nat
  minute :: nat
  second :: nat

text \<open>The fields of a \<open>datetime\<close> object are always in these ranges.\<close>

definition valid_datetime :: "datetime \<Rightarrow> bool" where
  "valid_datetime dt \<longleftrightarrow>
     1 \<le> year dt \<and> year dt \<le> 9999 \<and> 1 \<le> month dt \<and> month dt \<le> 12 \<and>
     1 \<le> day dt \<and> day dt \<le> 31 \<and> hour dt < 24 \<and> minute dt < 60 \<and> second dt < 60"

text \<open>The dictionary \<open>{1: 'st', 2: 'nd', 3: 'rd'}\<close>.\<close>

definition suffix_table :: "nat \<rightharpoonup> pystr" where
  "suffix_table = [1 \<mapsto> lit ''st'', 2 \<mapsto> lit ''nd'', 3 \<mapsto> lit ''rd'']"

definition ordinal_suffix :: "nat \<Rightarrow> pystr" where
  "ordinal_suffix d =
     (if 10 \<le> d \<and> d \<le> 13 then lit ''th''
      else (case suffix_table (d mod 10) of Some s \<Rightarrow> s | None \<Rightarrow> lit ''th''))"

text \<open>
  The directives of \<open>strftime\<close> that the format string uses, in the C locale:
  \<open>%B\<close> the full month name, \<open>%Y\<close> the year in decimal, \<open>%I\<close> the hour of the
  12-hour clock in two digits, \<open>%M\<close> the minute in two digits, \<open>%p\<close> AM or PM.
\<close>

definition month_names :: "pystr list" where
  "month_names = map lit [''January'', ''February'', ''March'', ''April'', ''May'', ''June'',
     ''July'', ''August'', ''September'', ''October'', ''November'', ''December'']"

definition strftime_B :: "datetime \<Rightarrow> pystr" where
  "strftime_B dt = (if 1 \<le> month dt \<and> month dt \<le> 12 then month_names ! (month dt - 1) else [])"

definition strftime_Y :: "datetime \<Rightarrow> pystr" where
  "strftime_Y dt = show_nat (year dt)"

definition two_digits :: "nat \<Rightarrow> pystr" where
  "two_digits n = [48 + (n div 10) mod 10, 48 + n mod 10]"

definition strftime_I :: "datetime \<Rightarrow> pystr" where
  "strftime_I dt = two_digits (if hour dt mod 12 = 0 then 12 else hour dt mod 12)"

definition strftime_M :: "datetime \<Rightarrow> pystr" where
  "strftime_M dt = two_digits (minute dt)"

definition strftime_p :: "datetime \<Rightarrow> pystr" where
  "strftime_p dt = (if hour dt < 12 then lit ''AM'' else lit ''PM'')"

text \<open>
  \<open>dt.strftime(f"{day}{suffix} %B %Y %I:%M%p")\<close>: the day and its suffix hold no
  percent sign, so they are copied, and each directive is replaced by its field.
\<close>

definition format_datetime :: "datetime \<Rightarrow> pystr" where
  "format_datetime dt =
     show_nat (day dt) @ ordinal_suffix (day dt) @ lit '' '' @ strftime_B dt @ lit '' '' @
     strftime_Y dt @ lit '' '' @ strftime_I dt @ lit '':'' @ strftime_M dt @ strftime_p dt"

section \<open>keyword\_matcher.py\<close>

text \<open>
  \<open>str.lower\<close>, \<open>str.strip\<close> and the word characters of \<open>re\<close>.  White space is
  the set of code points for which \<open>str.isspace\<close> holds.  Case conversion and the
  class of word characters are exact on ASCII; a code point from 128 on is taken as a
  caseless word character.
\<close>

definition lower_char :: "nat \<Rightarrow> nat" where
  "lower_char c = (if 65 \<le> c \<and> c \<le> 90 then c + 32 else c)"

definition lower :: "pystr \<Rightarrow> pystr" where
  "lower s = map lower_char s"

definition isspace :: "nat \<Rightarrow> bool" where
  "isspace c \<longleftrightarrow>
     (9 \<le> c \<and> c \<le> 13) \<or> (28 \<le> c \<and> c \<le> 32) \<or> c = 133 \<or> c = 160 \<or> c = 5760 \<or>
     (8192 \<le> c \<and> c \<le> 8202) \<or> c = 8232 \<or> c = 8233 \<or> c = 8239 \<or> c = 8287 \<or> c = 12288"

definition strip :: "pystr \<Rightarrow> pystr" where
  "strip s = rev (dropWhile isspace (rev (dropWhile isspace s)))"

definition is_word_char :: "nat \<Rightarrow> bool" where
  "is_word_char c \<longleftrightarrow>
     (48 \<le> c \<and> c \<le> 57) \<or> (65 \<le> c \<and> c \<le> 90) \<or> c = 95 \<or> (97 \<le> c \<and> c \<le> 122) \<or> 128 \<le> c"

text \<open>\<open>\b\<close> at position \<open>i\<close> of \<open>text\<close>: exactly one side is a word character.\<close>

definition word_boundary :: "pystr \<Rightarrow> nat \<Rightarrow> bool" where
  "word_boundary text i \<longleftrightarrow>
     (0 < i \<and> i \<le> length text \<and> is_word_char (text ! (i - 1))) \<noteq>
     (i < length text \<and> is_word_char (text ! i))"

text \<open>
  The pattern \<open>\b{re.escape(keyword)}\b\<close> compiled with \<open>IGNORECASE | UNICODE\<close>
  matches at position \<open>i\<close> when the keyword stands there up to case, between two word
  boundaries.  \<open>pattern.search(text)\<close> tries every position.
\<close>

definition match_at :: "pystr \<Rightarrow> pystr \<Rightarrow> nat \<Rightarrow> bool" where
  "match_at keyword text i \<longleftrightarrow>
     i + length keyword \<le> length text \<and> word_boundary text i \<and>
     lower (take (length keyword) (drop i text)) = lower keyword \<and>
     word_boundary text (i + length keyword)"

definition search :: "pystr \<Rightarrow> pystr \<Rightarrow> bool" where
  "search keyword text = list_ex (match_at keyword text) [0..<Suc (length text)]"

record KeywordMatcher =
  km_keywords :: "pystr list"
  km_patterns :: "(pystr \<times> pystr) list"

text \<open>
  \<open>__init__\<close>: a pattern is kept as the keyword it was compiled from; \<open>search\<close>
  gives it its meaning.
\<close>

definition KeywordMatcher_init :: "pystr list \<Rightarrow> KeywordMatcher" where
  "KeywordMatcher_init kws =
     (let ks = map (\<lambda>kw. strip (lower kw)) kws
      in \<lparr>km_keywords = ks, km_patterns = map (\<lambda>keyword. (keyword, keyword)) ks\<rparr>)"

definition find_matches :: "KeywordMatcher \<Rightarrow> pystr \<Rightarrow> pystr list" where
  "find_matches km text =
     (if text = [] then []
      else map fst (filter (\<lambda>(keyword, pattern). search pattern text) (km_patterns km)))"

definition has_match :: "KeywordMatcher \<Rightarrow> pystr \<Rightarrow> bool" where
  "has_match km text =
     (if text = [] then False
      else list_ex (\<lambda>(keyword, pattern). search pattern text) (km_patterns km))"

definition quoted :: "pystr \<Rightarrow> pystr" where
  "quoted m = lit [CHR 0x27] @ m @ lit [CHR 0x27]"

definition get_match_summary :: "KeywordMatcher \<Rightarrow> pystr \<Rightarrow> pystr option" where
  "get_match_summary km text =
     (let matches = find_matches km text in
      if matches = [] then None
      else if length matches = 1 then Some (lit ''Keyword matched: '' @ quoted (matches ! 0))
      else
        (let keywords_list = join (lit '', '') (map quoted (take 3 matches));
             extra_count = (if length matches > 3
                            then lit '' (+'' @ show_nat (length matches - 3) @ lit '' more)''
                            else [])
         in Some (lit ''Keywords matched: '' @ keywords_list @ extra_count)))"

section \<open>rate\_limiter.py\<close>

text \<open>
  A reading of \<open>time.time()\<close> is a number of seconds; the readings are taken as exact
  rationals.  A deque of timestamps is a list with its left end first, and the
  \<open>defaultdict(deque)\<close> of the channels is a map whose missing keys read as the empty
  deque.
\<close>

type_synonym timestamp = rat

record RateLimiter =
  max_per_hour :: int
  max_per_channel_per_hour :: int
  global_messages :: "timestamp list"
  channel_messages :: "int \<rightharpoonup> timestamp list"

definition RateLimiter_init :: "int \<Rightarrow> int \<Rightarrow> RateLimiter" where
  "RateLimiter_init mph mpcph =
     \<lparr>max_per_hour = mph, max_per_channel_per_hour = mpcph,
      global_messages = [], channel_messages = Map.empty\<rparr>"

text \<open>\<open>while message_queue and message_queue[0] < hour_ago: message_queue.popleft()\<close>\<close>

definition cleanup_old_messages :: "timestamp list \<Rightarrow> timestamp \<Rightarrow> timestamp list" where
  "cleanup_old_messages message_queue current_time =
     (let hour_ago = current_time - 3600 in dropWhile (\<lambda>t. t < hour_ago) message_queue)"

definition channel_queue_of :: "(int \<rightharpoonup> timestamp list) \<Rightarrow> int \<Rightarrow> timestamp list" where
  "channel_queue_of m c = (case m c of None \<Rightarrow> [] | Some q \<Rightarrow> q)"

text \<open>
  \<open>can_send_message\<close> returns its answer and the limiter it leaves behind: the global
  deque is pruned, and the channel's deque is created if missing and pruned once the
  global check has passed.
\<close>

definition can_send_message :: "RateLimiter \<Rightarrow> int option \<Rightarrow> timestamp \<Rightarrow> bool \<times> RateLimiter" where
  "can_send_message rl channel_id current_time =
     (let g = cleanup_old_messages (global_messages rl) current_time;
          rl1 = rl\<lparr>global_messages := g\<rparr>
      in if int (length g) \<ge> max_per_hour rl then (False, rl1)
         else (case channel_id of
                 None \<Rightarrow> (True, rl1)
               | Some c \<Rightarrow>
                   (let channel_queue =
                          cleanup_old_messages (channel_queue_of (channel_messages rl) c) current_time;
                        rl2 = rl1\<lparr>channel_messages := (channel_messages rl)(c \<mapsto> channel_queue)\<rparr>
                    in if int (length channel_queue) \<ge> max_per_channel_per_hour rl
                       then (False, rl2) else (True, rl2))))"

definition record_message :: "RateLimiter \<Rightarrow> int option \<Rightarrow> timestamp \<Rightarrow> RateLimiter" where
  "record_message rl channel_id current_time =
     (let rl1 = rl\<lparr>global_messages := global_messages rl @ [current_time]\<rparr>
      in case channel_id of
           None \<Rightarrow> rl1
         | Some c \<Rightarrow>
             rl1\<lparr>channel_messages :=
                   (channel_messages rl)(c \<mapsto> channel_queue_of (channel_messages rl) c @ [current_time])\<rparr>)"

section \<open>telegram\_client.py\<close>

text \<open>
  The peer of a message is one of Telethon's three peer objects; only \<open>PeerChannel\<close> has
  the attribute \<open>channel_id\<close>.
\<close>

datatype peer = PeerUser int | PeerChat int | PeerChannel int

record message =
  m_id :: int
  m_peer_id :: peer
  m_date :: datetime
  m_text :: "pystr option"

record Config =
  cfg_keywords :: "pystr list"
  forward_delay :: int
  max_messages_per_hour :: int
  max_messages_per_channel_per_hour :: int
  max_message_length :: int

type_synonym dedup_key = "int option \<times> int"

datatype error = FloodWaitError int | OtherError

text \<open>
  What the outside world answers while one message is processed: the reading of
  \<open>datetime.now\<close>, the reading of \<open>time.time()\<close> inside \<open>can_send_message\<close>, the
  result of \<open>get_entity\<close> (the title of the entity, if it has one, or an exception),
  the result of \<open>send_message\<close>, the reading of \<open>time.time()\<close> inside
  \<open>record_message\<close>, and the order in which \<open>list(...)\<close> enumerates a set, which
  Python leaves open.
\<close>

record env =
  now_utc :: timestamp
  time_can_send :: timestamp
  get_entity :: "error + pystr option"
  send_message :: "error + unit"
  time_record :: timestamp
  list_of_set :: "dedup_key set \<Rightarrow> dedup_key list"

record TeleScoutClient =
  config :: Config
  keyword_matcher :: KeywordMatcher
  rate_limiter :: RateLimiter
  last_forward_time :: "int option \<rightharpoonup> timestamp"
  forwarded_messages :: "dedup_key set"
  max_tracked_messages :: int
  on_message_forwarded :: bool

definition TeleScoutClient_init :: "Config \<Rightarrow> TeleScoutClient" where
  "TeleScoutClient_init cfg =
     \<lparr>config = cfg,
      keyword_matcher = KeywordMatcher_init (cfg_keywords cfg),
      rate_limiter = RateLimiter_init (max_messages_per_hour cfg) (max_messages_per_channel_per_hour cfg),
      last_forward_time = Map.empty,
      forwarded_messages = {},
      max_tracked_messages = 10000,
      on_message_forwarded = False\<rparr>"

text \<open>
  What is observed of one call of \<open>_process_message\<close>: each invocation of
  \<open>_forward_message\<close> with the dedup key, the text handed to \<open>send_message\<close> (if the
  call was reached) and how the invocation ended; each \<open>asyncio.sleep\<close> of the flood
  wait; each \<open>record_message\<close> with its channel and timestamp; each callback.
\<close>

datatype event =
    Forward dedup_key "pystr option" "error + unit"
  | Sleep int
  | Recorded "int option" timestamp
  | Callback

text \<open>An f-string prints \<open>None\<close> as the word None.\<close>

definition format_opt :: "pystr option \<Rightarrow> pystr" where
  "format_opt x = (case x of None \<Rightarrow> lit ''None'' | Some s \<Rightarrow> s)"

definition make_header :: "pystr \<Rightarrow> pystr \<Rightarrow> pystr option \<Rightarrow> bool \<Rightarrow> pystr" where
  "make_header channel_name formatted_time match_summary is_historical =
     (let header = [0x1F3AF] @ lit '' **TeleScout Match**'' @ [10];
          header = header @ [0x1F4FA] @ lit '' **Channel:** '' @ channel_name @ [10];
          header = header @ [0x23F0] @ lit '' **Time:** '' @ formatted_time @ [10];
          header = header @ [0x1F50D] @ lit '' **'' @ format_opt match_summary @ lit ''**'' @ [10];
          header = (if is_historical
                    then header @ [0x1F4DA] @ lit '' **Historical message**'' @ [10]
                    else header)
      in header @ replicate 50 61 @ [10, 10])"

text \<open>Lines 271 to 277 of \<open>_forward_message\<close>: the body that follows the header.\<close>

definition truncated_body :: "int \<Rightarrow> pystr \<Rightarrow> pystr \<Rightarrow> pystr" where
  "truncated_body max_len header message_text =
     (if int (length message_text) > max_len then
        (let truncated_length = max_len - int (length header) - 100 in
         if truncated_length > 0
         then take (nat truncated_length) message_text @ [10, 10] @ lit ''[Message truncated for security]''
         else lit ''[Message too long, content hidden for security]'')
      else message_text)"

definition full_message :: "Config \<Rightarrow> KeywordMatcher \<Rightarrow> pystr option \<Rightarrow> datetime \<Rightarrow> pystr \<Rightarrow> bool \<Rightarrow> pystr" where
  "full_message cfg km title date body is_historical =
     (let channel_name = (case title of None \<Rightarrow> lit ''Unknown Channel'' | Some t \<Rightarrow> t);
          match_summary = get_match_summary km body;
          formatted_time = format_datetime date;
          header = make_header channel_name formatted_time match_summary is_historical
      in header @ truncated_body (max_message_length cfg) header body)"

text \<open>
  \<open>_forward_message\<close> gives the text it handed to \<open>send_message\<close>, if it got that far,
  and its own result.  A message without text makes \<open>len\<close> raise before the send.
\<close>

definition forward_message :: "env \<Rightarrow> TeleScoutClient \<Rightarrow> message \<Rightarrow> bool \<Rightarrow> pystr option \<times> (error + unit)" where
  "forward_message e st msg is_historical =
     (case get_entity e of
        Inl err \<Rightarrow> (None, Inl err)
      | Inr title \<Rightarrow>
          (case m_text msg of
             None \<Rightarrow> (None, Inl OtherError)
           | Some body \<Rightarrow>
               (Some (full_message (config st) (keyword_matcher st) title (m_date msg) body is_historical),
                send_message e)))"

definition channel_id_of :: "peer \<Rightarrow> int option" where
  "channel_id_of p = (case p of PeerChannel c \<Rightarrow> Some c | _ \<Rightarrow> None)"

text \<open>The slice \<open>xs[k:]\<close>.\<close>

definition slice_from :: "int \<Rightarrow> 'a list \<Rightarrow> 'a list" where
  "slice_from k xs = (if k < 0 then drop (nat (int (length xs) + k)) xs else drop (nat k) xs)"

text \<open>Lines 225 to 228: the memory management of the set of forwarded messages.\<close>

definition compact :: "(dedup_key set \<Rightarrow> dedup_key list) \<Rightarrow> int \<Rightarrow> dedup_key set \<Rightarrow> dedup_key set" where
  "compact to_list cap forwarded =
     (if int (card forwarded) > cap
      then (let messages_list = to_list forwarded in set (slice_from ((- cap) div 2) messages_list))
      else forwarded)"

definition on_success :: "env \<Rightarrow> int option \<Rightarrow> dedup_key \<Rightarrow> RateLimiter \<Rightarrow> TeleScoutClient \<Rightarrow> TeleScoutClient" where
  "on_success e channel_id dedup_id rl st =
     st\<lparr>last_forward_time := (last_forward_time st)(channel_id \<mapsto> now_utc e),
        forwarded_messages :=
          compact (list_of_set e) (max_tracked_messages st) (insert dedup_id (forwarded_messages st)),
        rate_limiter := record_message rl channel_id (time_record e)\<rparr>"

definition too_soon :: "TeleScoutClient \<Rightarrow> int option \<Rightarrow> timestamp \<Rightarrow> bool" where
  "too_soon st channel_id current_time =
     (case last_forward_time st channel_id of
        None \<Rightarrow> False
      | Some last_time \<Rightarrow> current_time - last_time < of_int (forward_delay (config st)))"

definition process_message :: "env \<Rightarrow> message \<Rightarrow> bool \<Rightarrow> TeleScoutClient \<Rightarrow> bool \<times> event list \<times> TeleScoutClient" where
  "process_message e msg is_historical st =
     (case m_text msg of
        None \<Rightarrow> (False, [], st)
      | Some text \<Rightarrow>
          if text = [] then (False, [], st)
          else if \<not> has_match (keyword_matcher st) text then (False, [], st)
          else
            (let channel_id = channel_id_of (m_peer_id msg);
                 dedup_id = (channel_id, m_id msg)
             in if dedup_id \<in> forwarded_messages st then (False, [], st)
                else
                  (let current_time = now_utc e;
                       (ok, rl) = can_send_message (rate_limiter st) channel_id (time_can_send e);
                       st1 = st\<lparr>rate_limiter := rl\<rparr>
                   in if \<not> ok then (False, [], st1)
                      else if too_soon st channel_id current_time then (False, [], st1)
                      else
                        (case forward_message e st1 msg is_historical of
                           (sent, Inl (FloodWaitError seconds)) \<Rightarrow>
                             (False, [Forward dedup_id sent (Inl (FloodWaitError seconds)), Sleep seconds], st1)
                         | (sent, Inl OtherError) \<Rightarrow>
                             (False, [Forward dedup_id sent (Inl OtherError)], st1)
                         | (sent, Inr u) \<Rightarrow>
                             (True,
                              [Forward dedup_id sent (Inr u), Recorded channel_id (time_record e)] @
                              (if on_message_forwarded st then [Callback] else []),
                              on_success e channel_id dedup_id rl st)))))"

text \<open>
  A session: the messages of the historical scan and of the live subscription reach
  \<open>_process_message\<close> one after the other, each with what the world answers meanwhile.
\<close>

definition step :: "event list \<times> TeleScoutClient \<Rightarrow> env \<times> message \<times> bool \<Rightarrow> event list \<times> TeleScoutClient" where
  "step acc inp =
     (case (acc, inp) of ((tr, st), (e, msg, is_historical)) \<Rightarrow>
        (case process_message e msg is_historical st of (r, evs, st') \<Rightarrow> (tr @ evs, st')))"

definition run :: "(env \<times> message \<times> bool) list \<Rightarrow> TeleScoutClient \<Rightarrow> event list \<times> TeleScoutClient" where
  "run inputs st = foldl step ([], st) inputs"

section \<open>Reading the results\<close>

text \<open>The number that a string of decimal digits denotes.\<close>

definition digits_value :: "pystr \<Rightarrow> nat" where
  "digits_value s = foldl (\<lambda>a c. 10 * a + (c - 48)) 0 s"

text \<open>\<open>s.endswith(suf)\<close>.\<close>

definition endswith :: "pystr \<Rightarrow> pystr \<Rightarrow> bool" where
  "endswith s suf \<longleftrightarrow> length suf \<le> length s \<and> drop (length s - length suf) s = suf"

section \<open>Reading a trace\<close>

text \<open>
  The dedup key of an invocation of the forwarder, whether the invocation returned
  normally, and the invocations and the successful invocations for one key.
\<close>

fun forward_key :: "event \<Rightarrow> dedup_key option" where
  "forward_key (Forward k sent res) = Some k"
| "forward_key ev = None"

fun succeeded :: "event \<Rightarrow> bool" where
  "succeeded (Forward k sent (Inr u)) = True"
| "succeeded ev = False"

definition forwards_of :: "dedup_key \<Rightarrow> event list \<Rightarrow> event list" where
  "forwards_of k tr = filter (\<lambda>ev. forward_key ev = Some k) tr"

definition successes_of :: "dedup_key \<Rightarrow> event list \<Rightarrow> event list" where
  "successes_of k tr = filter (\<lambda>ev. forward_key ev = Some k \<and> succeeded ev) tr"

definition success_keys :: "event list \<Rightarrow> dedup_key list" where
  "success_keys tr = List.map_filter (\<lambda>ev. if succeeded ev then forward_key ev else None) tr"

text \<open>
  Scanning a trace with the keys that have been forwarded successfully so far: no
  invocation of the forwarder carries one of them.
\<close>

fun once :: "dedup_key set \<Rightarrow> event list \<Rightarrow> bool" where
  "once forwarded [] = True"
| "once forwarded (ev # tr) =
     (case forward_key ev of
        None \<Rightarrow> once forwarded tr
      | Some k \<Rightarrow> k \<notin> forwarded \<and> once (if succeeded ev then insert k forwarded else forwarded) tr)"

text \<open>
  The timestamps that \<open>record_message\<close> has stamped on the successful forwards: all of
  them, and those of one channel.
\<close>

fun record_of :: "event \<Rightarrow> (int option \<times> timestamp) option" where
  "record_of (Recorded c t) = Some (c, t)"
| "record_of ev = None"

definition global_times :: "event list \<Rightarrow> timestamp list" where
  "global_times tr = map snd (List.map_filter record_of tr)"








section \<open>A worked session\<close>

text \<open>
  A configuration with the keyword \<open>deploy\<close> and a message length of 200, a message
  of 500 characters in channel 42 that holds the keyword, and a world in which the channel
  is called News and the send succeeds.  A second world answers the send with a flood wait
  of two seconds.  No session of these worlds fills the set of forwarded messages, so the
  set is never enumerated in them.
\<close>

definition example_body :: pystr where
  "example_body = lit ''deploy '' @ replicate 493 120"

definition example_config :: Config where
  "example_config = \<lparr>cfg_keywords = [lit ''deploy''], forward_delay = 5, max_messages_per_hour = 60,
     max_messages_per_channel_per_hour = 20, max_message_length = 200\<rparr>"

definition example_message :: message where
  "example_message = \<lparr>m_id = 1000, m_peer_id = PeerChannel 42,
     m_date = \<lparr>year = 2025, month = 8, day = 5, hour = 17, minute = 59, second = 9\<rparr>,
     m_text = Some example_body\<rparr>"

definition example_env :: env where
  "example_env = \<lparr>now_utc = 100, time_can_send = 100, get_entity = Inr (Some (lit ''News'')),
     send_message = Inr (), time_record = 101, list_of_set = (\<lambda>S. [])\<rparr>"

definition example_client :: TeleScoutClient where
  "example_client = TeleScoutClient_init example_config"

definition short_message :: message where
  "short_message = \<lparr>m_id = 1000, m_peer_id = PeerChannel 42,
     m_date = \<lparr>year = 2025, month = 8, day = 5, hour = 17, minute = 59, second = 9\<rparr>,
     m_text = Some (lit ''We deploy at noon.'')\<rparr>"

definition flood_env :: env where
  "flood_env = \<lparr>now_utc = 50, time_can_send = 50, get_entity = Inr (Some (lit ''News'')),
     send_message = Inl (FloodWaitError 2), time_record = 51, list_of_set = (\<lambda>S. [])\<rparr>"

text \<open>Two messages with the same id from two sources that are not channels.\<close>

definition user_message :: message where
  "user_message = short_message\<lparr>m_id := 5, m_peer_id := PeerUser 7\<rparr>"

definition chat_message :: message where
  "chat_message = short_message\<lparr>m_id := 5, m_peer_id := PeerChat 9\<rparr>"

text \<open>The example client after a flood wait on a message of channel 42.\<close>

definition after_flood :: TeleScoutClient where
  "after_flood = example_client\<lparr>rate_limiter := (RateLimiter_init 60 20)\<lparr>channel_messages := [42 \<mapsto> []]\<rparr>\<rparr>"

text \<open>
  A client that has forwarded the messages 1 to 10,000 of channel 1, the next message of
  that channel, and a world in which \<open>list(...)\<close> enumerates the set of forwarded
  messages with the key of message 10,001 first.
\<close>

definition old_keys :: "dedup_key list" where
  "old_keys = map (\<lambda>i. (Some 1, int i)) [1..<10001]"

definition full_client :: TeleScoutClient where
  "full_client = example_client\<lparr>forwarded_messages := set old_keys\<rparr>"

definition new_message :: message where
  "new_message = short_message\<lparr>m_id := 10001, m_peer_id := PeerChannel 1\<rparr>"

definition newest_first_env :: env where
  "newest_first_env = example_env\<lparr>list_of_set := (\<lambda>S. (Some 1, 10001) # old_keys)\<rparr>"

section \<open>Facts about strings and digits\<close>

lemma lit_Nil [simp]: "lit [] = []"
  by (simp add: lit_def)
lemma lit_Cons [simp]: "lit (c # cs) = of_char c # lit cs"
  by (simp add: lit_def)
lemma length_lit [simp]: "length (lit s) = length s"
  by (simp add: lit_def)

lemma digits_value_snoc: "digits_value (s @ [c]) = 10 * digits_value s + (c - 48)"
  by (simp add: digits_value_def)

lemma digits_value_show_nat: "digits_value (show_nat n) = n"
proof (induction n rule: show_nat.induct)
  case (1 n)
  show ?case
  proof (cases "n < 10")
    case True
    then show ?thesis by (simp add: show_nat.simps [of n] digits_value_def)
  next
    case False
    with 1 show ?thesis by (simp add: show_nat.simps [of n] digits_value_snoc)
  qed
qed

lemma length_show_nat_1: "n < 10 \<Longrightarrow> length (show_nat n) = 1"
  by (simp add: show_nat.simps [of n])

lemma length_show_nat_2: "10 \<le> n \<Longrightarrow> n < 100 \<Longrightarrow> length (show_nat n) = 2"
  by (simp add: show_nat.simps [of n] length_show_nat_1)

lemma length_show_nat_3: "100 \<le> n \<Longrightarrow> n < 1000 \<Longrightarrow> length (show_nat n) = 3"
  by (simp add: show_nat.simps [of n] length_show_nat_2)

lemma length_show_nat_4: "1000 \<le> n \<Longrightarrow> n < 10000 \<Longrightarrow> length (show_nat n) = 4"
  by (simp add: show_nat.simps [of n] length_show_nat_3)

lemma ordinal_suffix_rule:
  assumes "1 \<le> d" "d \<le> 31"
  shows "ordinal_suffix d =
     lit (if d \<in> {11, 12, 13} then ''th'' else if d mod 10 = 1 then ''st''
          else if d mod 10 = 2 then ''nd'' else if d mod 10 = 3 then ''rd'' else ''th'')"
proof (cases "10 \<le> d \<and> d \<le> 13")
  case True
  then have "d = 10 \<or> d = 11 \<or> d = 12 \<or> d = 13" by arith
  then show ?thesis by (auto simp: ordinal_suffix_def)
next
  case False
  then have "d \<notin> {11, 12, 13}" by auto
  with False show ?thesis by (auto simp: ordinal_suffix_def suffix_table_def)
qed

lemma two_digits_value: "n < 100 \<Longrightarrow> digits_value (two_digits n) = n"
proof -
  assume "n < 100"
  then have "n div 10 < 10" by simp
  then have "n div 10 mod 10 = n div 10" by simp
  then show ?thesis by (simp add: two_digits_def digits_value_def)
qed


section \<open>The ordinal date format\<close>

text \<open>
  Claim C9.  For every datetime whose day is between 1 and 31 (and whose year has four
  digits), \<open>format_datetime\<close> gives the day in decimal, followed by the ordinal suffix
  of the rule (\<open>th\<close> for 11, 12 and 13, otherwise \<open>st\<close>, \<open>nd\<close>, \<open>rd\<close> for a last
  digit 1, 2, 3, and \<open>th\<close> for the rest), a space, the full month name, a space, the
  year in four digits, a space, the hour of the 12-hour clock in two digits, a colon, the
  minute in two digits, and AM or PM.  The 5th of August 2025, 17:59, reads
  \<open>5th August 2025 05:59PM\<close>.
\<close>

theorem format_datetime_ordinal:
  assumes "valid_datetime dt" and "1000 \<le> year dt"
  shows "format_datetime dt =
           show_nat (day dt) @
           lit (if day dt \<in> {11, 12, 13} then ''th'' else if day dt mod 10 = 1 then ''st''
                else if day dt mod 10 = 2 then ''nd'' else if day dt mod 10 = 3 then ''rd''
                else ''th'') @
           lit '' '' @ month_names ! (month dt - 1) @ lit '' '' @ strftime_Y dt @ lit '' '' @
           strftime_I dt @ lit '':'' @ strftime_M dt @ lit (if hour dt < 12 then ''AM'' else ''PM'') \<and>
         digits_value (show_nat (day dt)) = day dt \<and>
         length (strftime_Y dt) = 4 \<and> digits_value (strftime_Y dt) = year dt \<and>
         length (strftime_I dt) = 2 \<and> digits_value (strftime_I dt) \<in> {1..12} \<and>
         digits_value (strftime_I dt) mod 12 = hour dt mod 12 \<and>
         length (strftime_M dt) = 2 \<and> digits_value (strftime_M dt) = minute dt \<and>
         format_datetime \<lparr>year = 2025, month = 8, day = 5, hour = 17, minute = 59, second = 9\<rparr> =
           lit ''5th August 2025 05:59PM''"
proof -
  from assms have d: "1 \<le> day dt" "day dt \<le> 31" and m: "1 \<le> month dt" "month dt \<le> 12"
    and y: "year dt < 10000" and h: "hour dt < 24" and mi: "minute dt < 60"
    by (simp_all add: valid_datetime_def)
  have 1: "format_datetime dt =
           show_nat (day dt) @
           lit (if day dt \<in> {11, 12, 13} then ''th'' else if day dt mod 10 = 1 then ''st''
                else if day dt mod 10 = 2 then ''nd'' else if day dt mod 10 = 3 then ''rd''
                else ''th'') @
           lit '' '' @ month_names ! (month dt - 1) @ lit '' '' @ strftime_Y dt @ lit '' '' @
           strftime_I dt @ lit '':'' @ strftime_M dt @ lit (if hour dt < 12 then ''AM'' else ''PM'')"
    unfolding format_datetime_def ordinal_suffix_rule [OF d] strftime_B_def strftime_p_def
    using m by simp
  have 2: "length (strftime_Y dt) = 4"
    using assms(2) y by (simp add: strftime_Y_def length_show_nat_4)
  have 3: "digits_value (strftime_I dt) \<in> {1..12}"
    using h by (simp add: strftime_I_def two_digits_value)
  have 4: "digits_value (strftime_I dt) mod 12 = hour dt mod 12"
    by (simp add: strftime_I_def two_digits_value)
  have 5: "digits_value (strftime_M dt) = minute dt"
    using mi by (simp add: strftime_M_def two_digits_value)
  have 6: "format_datetime \<lparr>year = 2025, month = 8, day = 5, hour = 17, minute = 59, second = 9\<rparr> =
           lit ''5th August 2025 05:59PM''"
    by (simp add: format_datetime_def show_nat.simps ordinal_suffix_def suffix_table_def strftime_B_def
        strftime_Y_def strftime_I_def strftime_M_def strftime_p_def month_names_def two_digits_def)
  have 7: "digits_value (strftime_Y dt) = year dt"
    by (simp add: strftime_Y_def digits_value_show_nat)
  have 8: "length (strftime_I dt) = 2" "length (strftime_M dt) = 2"
    by (simp_all add: strftime_I_def strftime_M_def two_digits_def)
  show ?thesis
    by (intro conjI 1 2 3 4 5 6 7 8 digits_value_show_nat)
qed

theorem format_datetime_ordinal_witness:
  "valid_datetime \<lparr>year = 2025, month = 12, day = 23, hour = 0, minute = 7, second = 0\<rparr> \<and>
   1000 \<le> year \<lparr>year = 2025, month = 12, day = 23, hour = 0, minute = 7, second = 0\<rparr> \<and>
   format_datetime \<lparr>year = 2025, month = 12, day = 23, hour = 0, minute = 7, second = 0\<rparr> =
     lit ''23rd December 2025 12:07AM''"
  using format_datetime_ordinal [of "\<lparr>year = 2025, month = 12, day = 23, hour = 0, minute = 7, second = 0\<rparr>"]
  by (simp add: valid_datetime_def show_nat.simps month_names_def strftime_Y_def strftime_I_def
      strftime_M_def two_digits_def)


section \<open>The keyword matcher\<close>

lemmas matcher_defs = KeywordMatcher_init_def has_match_def find_matches_def search_def match_at_def
  word_boundary_def strip_def lower_def lower_char_def isspace_def is_word_char_def

lemma search_at: "i \<le> length text \<Longrightarrow> match_at keyword text i \<Longrightarrow> search keyword text"
  unfolding search_def list_ex_iff by (rule bexI [of _ i]) auto

lemma KeywordMatcher_init_keywords:
  "km_keywords (KeywordMatcher_init kws) = map (\<lambda>kw. strip (lower kw)) kws \<and>
   length (km_patterns (KeywordMatcher_init kws)) = length kws"
  by (simp add: KeywordMatcher_init_def)

lemma find_matches_filter:
  "find_matches (KeywordMatcher_init kws) text =
     (if text = [] then [] else filter (\<lambda>k. search k text) (map (\<lambda>kw. strip (lower kw)) kws))"
  by (simp add: find_matches_def KeywordMatcher_init_def filter_map comp_def)

lemma empty_keyword_search:
  assumes "\<exists>c\<in>set text. is_word_char c"
  shows "search [] text"
proof -
  define i where "i = length (takeWhile (\<lambda>c. \<not> is_word_char c) text)"
  from assms have "takeWhile (\<lambda>c. \<not> is_word_char c) text \<noteq> text"
    by (auto simp: takeWhile_eq_all_conv)
  then have "i \<noteq> length text" unfolding i_def by (metis takeWhile_eq_take take_all order_refl)
  moreover have "i \<le> length text" unfolding i_def by (rule length_takeWhile_le)
  ultimately have lt: "i < length text" by simp
  have w: "is_word_char (text ! i)"
    using lt nth_length_takeWhile [of "\<lambda>c. \<not> is_word_char c" "text"] unfolding i_def by simp
  have p: "\<not> is_word_char (text ! (i - 1))" if "0 < i"
  proof -
    from that have j: "i - 1 < length (takeWhile (\<lambda>c. \<not> is_word_char c) text)"
      unfolding i_def by simp
    then have "takeWhile (\<lambda>c. \<not> is_word_char c) text ! (i - 1) = text ! (i - 1)"
      by (rule takeWhile_nth)
    moreover from j have "takeWhile (\<lambda>c. \<not> is_word_char c) text ! (i - 1)
        \<in> set (takeWhile (\<lambda>c. \<not> is_word_char c) text)"
      by (rule nth_mem)
    ultimately show ?thesis by (auto dest: set_takeWhileD)
  qed
  have "word_boundary text i"
    unfolding word_boundary_def using lt w p by auto
  then have "match_at [] text i"
    unfolding match_at_def using lt by (simp add: lower_def)
  with lt show ?thesis by (intro search_at [of i]) simp_all
qed

lemma blank_keyword_matches:
  assumes "\<forall>c\<in>set kw. isspace c" and "\<exists>c\<in>set text. is_word_char c"
  shows "has_match (KeywordMatcher_init [kw]) text"
proof -
  have "\<forall>c\<in>set (lower kw). isspace c"
  proof
    fix c assume "c \<in> set (lower kw)"
    then obtain d where d: "d \<in> set kw" "c = lower_char d" unfolding lower_def by auto
    with assms(1) have "isspace d" by simp
    then have "lower_char d = d" unfolding isspace_def lower_char_def by auto
    with d \<open>isspace d\<close> show "isspace c" by simp
  qed
  then have d: "dropWhile isspace (lower kw) = []" by (metis dropWhile_eq_Nil_conv)
  have s: "strip (lower kw) = []" unfolding strip_def d by simp
  from assms(2) have "text \<noteq> []" by auto
  with empty_keyword_search [OF assms(2)] show ?thesis
    by (simp add: has_match_def KeywordMatcher_init_def s)
qed

text \<open>
  Claim C7.  The constructor lowercases and trims every keyword, but it discards none:
  a keyword of three spaces becomes the empty keyword, which is kept in the keyword list
  and gets a pattern of its own.  That pattern is two word boundaries in a row, so it
  matches every text that holds a word character (\<open>blank_keyword_matches\<close>):
  \<open>hello\<close> matches it.
\<close>

theorem blank_keyword_is_kept:
  "km_keywords (KeywordMatcher_init [lit ''   '', lit '' Deploy '']) = [lit '''', lit ''deploy''] \<and>
   km_patterns (KeywordMatcher_init [lit ''   '']) = [(lit '''', lit '''')] \<and>
   has_match (KeywordMatcher_init [lit ''   '']) (lit ''hello'') \<and>
   find_matches (KeywordMatcher_init [lit ''   '']) (lit ''hello'') = [lit '''']"
  by (simp add: matcher_defs upt_rec)

text \<open>
  Claim C8, as stated, at four matching keywords: the summary is not the string with
  the overflow suffix glued to the third keyword.
\<close>

theorem match_summary_counterexample:
  "get_match_summary (KeywordMatcher_init [lit ''a'', lit ''b'', lit ''c'', lit ''d'']) (lit ''a b c d'')
     \<noteq> Some (lit ''Keywords matched: 'a', 'b', 'c'(+1 more)'')"
  by (simp add: get_match_summary_def quoted_def show_nat.simps matcher_defs upt_rec)

text \<open>
  Claim C8, amended.  \<open>get_match_summary\<close> returns \<open>None\<close> when no entry of the
  keyword list matches; \<open>Keyword matched: 'X'\<close> when exactly one entry matches; the
  matching entries between quotes and separated by a comma and a space after
  \<open>Keywords matched: \<close> when two or three match; and the first three of them followed
  by a space and \<open>(+N more)\<close> when \<open>3 + N\<close> entries match, \<open>N > 0\<close>.  The matching
  entries are the normalised keywords that match, in the order of the configured list.
\<close>

theorem match_summary_format:
  "get_match_summary km text =
     (case find_matches km text of
        [] \<Rightarrow> None
      | [x] \<Rightarrow> Some (lit ''Keyword matched: '' @ quoted x)
      | [x, y] \<Rightarrow> Some (lit ''Keywords matched: '' @ quoted x @ lit '', '' @ quoted y)
      | [x, y, z] \<Rightarrow>
          Some (lit ''Keywords matched: '' @ quoted x @ lit '', '' @ quoted y @ lit '', '' @ quoted z)
      | x # y # z # r \<Rightarrow>
          Some (lit ''Keywords matched: '' @ quoted x @ lit '', '' @ quoted y @ lit '', '' @ quoted z @
                lit '' (+'' @ show_nat (length r) @ lit '' more)'')) \<and>
   find_matches (KeywordMatcher_init kws) text =
     (if text = [] then [] else filter (\<lambda>k. search k text) (map (\<lambda>kw. strip (lower kw)) kws))"
  by (simp add: get_match_summary_def find_matches_filter split: list.splits)

theorem match_summary_format_witness:
  "get_match_summary (KeywordMatcher_init [lit ''a'', lit ''B '', lit ''c'', lit ''d'', lit ''e'']) (lit ''e d c a'')
     = Some (lit ''Keywords matched: 'a', 'c', 'd' (+1 more)'')"
  using match_summary_format [of "KeywordMatcher_init [lit ''a'', lit ''B '', lit ''c'', lit ''d'', lit ''e'']"
      "lit ''e d c a''" "[lit ''a'', lit ''B '', lit ''c'', lit ''d'', lit ''e'']"]
  by (simp add: quoted_def show_nat.simps search_def match_at_def
  word_boundary_def strip_def lower_def lower_char_def isspace_def is_word_char_def upt_rec)

section \<open>The outbound message\<close>

lemma length_make_header:
  "length (make_header channel_name formatted_time match_summary is_historical) =
     110 + length channel_name + length formatted_time + length (format_opt match_summary) +
     (if is_historical then 25 else 0)"
  by (simp add: make_header_def Let_def)

lemma truncated_body_length:
  "47 \<le> max_len \<Longrightarrow> int (length (truncated_body max_len header body)) \<le> max_len"
  by (auto simp: truncated_body_def Let_def)

lemma endswith_append: "endswith (xs @ ys) ys"
  by (simp add: endswith_def)

text \<open>
  Claim C6.  The text handed to the send is the header followed by the body, where the
  body is unchanged when it has at most \<open>max_message_length\<close> characters; otherwise,
  with \<open>room = max_message_length - len(header) - 100\<close>, it is the first \<open>room\<close>
  characters of the body followed by two newlines and
  \<open>[Message truncated for security]\<close> when \<open>room > 0\<close>, and the notice
  \<open>[Message too long, content hidden for security]\<close> alone when \<open>room \<le> 0\<close>.
  When the body is cut, the slice has exactly \<open>room\<close> characters.
\<close>

theorem truncation_rule:
  "full_message cfg km title date body is_historical =
     (let header = make_header (case title of None \<Rightarrow> lit ''Unknown Channel'' | Some t \<Rightarrow> t)
                     (format_datetime date) (get_match_summary km body) is_historical;
          room = max_message_length cfg - int (length header) - 100
      in header @
         (if int (length body) \<le> max_message_length cfg then body
          else if room > 0 then take (nat room) body @ [10, 10] @ lit ''[Message truncated for security]''
          else lit ''[Message too long, content hidden for security]'')) \<and>
   (int (length body) > max_len \<and> max_len - int (length header) - 100 > 0 \<longrightarrow>
      truncated_body max_len header body =
        take (nat (max_len - int (length header) - 100)) body @ [10, 10] @ lit ''[Message truncated for security]'' \<and>
      int (length (take (nat (max_len - int (length header) - 100)) body)) = max_len - int (length header) - 100)"
  by (auto simp: full_message_def truncated_body_def Let_def)

theorem truncation_rule_witness:
  "(300::int) < int (length (replicate 400 (120::nat))) \<and>
   (300::int) - int (length (replicate 150 (61::nat))) - 100 > 0 \<and>
   truncated_body 300 (replicate 150 61) (replicate 400 120) =
     replicate 50 120 @ [10, 10] @ lit ''[Message truncated for security]''"
  using truncation_rule [where max_len = 300 and header = "replicate 150 61" and body = "replicate 400 120"]
  by simp

lemma example_search: "search (lit ''deploy'') example_body"
  by (rule search_at [of 0])
     (simp_all add: example_body_def match_at_def word_boundary_def lower_def lower_char_def
        is_word_char_def)

lemma example_matches:
  "find_matches (KeywordMatcher_init [lit ''deploy'']) example_body = [lit ''deploy'']"
  using example_search
  by (simp add: find_matches_filter strip_def lower_def lower_char_def isspace_def example_body_def)

lemma example_full_message:
  "full_message example_config (KeywordMatcher_init [lit ''deploy'']) (Some (lit ''News''))
     \<lparr>year = 2025, month = 8, day = 5, hour = 17, minute = 59, second = 9\<rparr> example_body False =
   [0x1F3AF] @ lit '' **TeleScout Match**'' @ [10] @
   [0x1F4FA] @ lit '' **Channel:** News'' @ [10] @
   [0x23F0] @ lit '' **Time:** 5th August 2025 05:59PM'' @ [10] @
   [0x1F50D] @ lit '' **Keyword matched: 'deploy'**'' @ [10] @
   replicate 50 61 @ [10, 10] @
   lit ''[Message too long, content hidden for security]''"
proof -
  have s: "get_match_summary (KeywordMatcher_init [lit ''deploy'']) example_body =
     Some (lit ''Keyword matched: '' @ quoted (lit ''deploy''))"
    by (simp add: get_match_summary_def example_matches del: lit_Cons lit_Nil)
  have f: "format_datetime \<lparr>year = 2025, month = 8, day = 5, hour = 17, minute = 59, second = 9\<rparr> =
           lit ''5th August 2025 05:59PM''"
    by (simp add: format_datetime_def show_nat.simps ordinal_suffix_def suffix_table_def strftime_B_def
        strftime_Y_def strftime_I_def strftime_M_def strftime_p_def month_names_def two_digits_def)
  have l: "length example_body = 500" by (simp add: example_body_def)
  show ?thesis
    unfolding full_message_def s f Let_def
    by (simp add: make_header_def truncated_body_def l example_config_def format_opt_def quoted_def)
qed

text \<open>
  Claim C5, as stated, at its own example: with a message length of 200 and a matching
  body of 500 characters, the text handed to the send has 209 characters and does not
  end with the truncation notice.
\<close>

theorem sent_length_counterexample:
  "has_match (keyword_matcher example_client) example_body \<and>
   length example_body = 500 \<and>
   max_message_length (config example_client) = 200 \<and>
   snd (forward_message example_env example_client example_message False) = Inr () \<and>
   map_option length (fst (forward_message example_env example_client example_message False)) = Some 209 \<and>
   map_option (\<lambda>t. endswith t (lit ''[Message truncated for security]''))
     (fst (forward_message example_env example_client example_message False)) = Some False"
proof -
  have km: "keyword_matcher example_client = KeywordMatcher_init [lit ''deploy'']"
    and cf: "config example_client = example_config"
    by (simp_all add: example_client_def TeleScoutClient_init_def example_config_def)
  have h: "has_match (KeywordMatcher_init [lit ''deploy'']) example_body"
    using example_search
    by (simp add: has_match_def KeywordMatcher_init_def strip_def lower_def lower_char_def isspace_def
        example_body_def)
  have fw: "forward_message example_env example_client example_message False =
    (Some (full_message example_config (KeywordMatcher_init [lit ''deploy'']) (Some (lit ''News''))
     \<lparr>year = 2025, month = 8, day = 5, hour = 17, minute = 59, second = 9\<rparr> example_body False), Inr ())"
    unfolding forward_message_def km cf
    by (simp add: example_env_def example_message_def del: lit_Cons lit_Nil)
  show ?thesis
    unfolding fw km cf example_full_message
    using h by (simp add: example_body_def example_config_def endswith_def)
qed

text \<open>
  Claim C5, amended.  The text handed to the send is the header followed by a body part.
  The body part has at most \<open>max_message_length\<close> characters whenever
  \<open>max_message_length\<close> is at least 47, the length of the notice that replaces a
  hidden body; the header is not counted against the limit.  When the body is longer than
  \<open>max_message_length\<close> and \<open>room = max_message_length - len(header) - 100\<close> is
  positive, the whole text has \<open>max_message_length - 66\<close> characters and ends with
  \<open>[Message truncated for security]\<close>.  With a message length of 200 and a body of
  500 characters there is no room, as every header has at least 110 characters: the text
  ends with \<open>[Message too long, content hidden for security]\<close> and has at least 157
  characters.
\<close>

theorem sent_length:
  "full_message cfg km title date body is_historical =
     (let header = make_header (case title of None \<Rightarrow> lit ''Unknown Channel'' | Some t \<Rightarrow> t)
                     (format_datetime date) (get_match_summary km body) is_historical
      in header @ truncated_body (max_message_length cfg) header body) \<and>
   (47 \<le> max_len \<longrightarrow> int (length (truncated_body max_len header body)) \<le> max_len) \<and>
   (int (length body) > max_len \<and> max_len - int (length header) - 100 > 0 \<longrightarrow>
      int (length (header @ truncated_body max_len header body)) = max_len - 66 \<and>
      endswith (header @ truncated_body max_len header body) (lit ''[Message truncated for security]'')) \<and>
   (max_message_length cfg = 200 \<and> length body = 500 \<longrightarrow>
      endswith (full_message cfg km title date body is_historical)
        (lit ''[Message too long, content hidden for security]'') \<and>
      length (full_message cfg km title date body is_historical) \<ge> 157)"
proof -
  have 1: "full_message cfg km title date body is_historical =
     (let header = make_header (case title of None \<Rightarrow> lit ''Unknown Channel'' | Some t \<Rightarrow> t)
                     (format_datetime date) (get_match_summary km body) is_historical
      in header @ truncated_body (max_message_length cfg) header body)"
    by (simp add: full_message_def Let_def)
  have 2: "47 \<le> max_len \<longrightarrow> int (length (truncated_body max_len header body)) \<le> max_len"
    by (simp add: truncated_body_length)
  have 3: "int (length body) > max_len \<and> max_len - int (length header) - 100 > 0 \<longrightarrow>
      int (length (header @ truncated_body max_len header body)) = max_len - 66 \<and>
      endswith (header @ truncated_body max_len header body) (lit ''[Message truncated for security]'')"
  proof (intro impI conjI)
    assume a: "int (length body) > max_len \<and> max_len - int (length header) - 100 > 0"
    then have tb: "truncated_body max_len header body =
        take (nat (max_len - int (length header) - 100)) body @ [10, 10] @ lit ''[Message truncated for security]''"
      by (simp add: truncated_body_def)
    from a show "int (length (header @ truncated_body max_len header body)) = max_len - 66"
      unfolding tb by (simp add: min_def) linarith
    show "endswith (header @ truncated_body max_len header body) (lit ''[Message truncated for security]'')"
      unfolding tb
      using endswith_append [of "header @ take (nat (max_len - int (length header) - 100)) body @ [10, 10]"
          "lit ''[Message truncated for security]''"]
      by simp
  qed
  have 4: "max_message_length cfg = 200 \<and> length body = 500 \<longrightarrow>
      endswith (full_message cfg km title date body is_historical)
        (lit ''[Message too long, content hidden for security]'') \<and>
      length (full_message cfg km title date body is_historical) \<ge> 157"
  proof (intro impI)
    assume a: "max_message_length cfg = 200 \<and> length body = 500"
    define header where "header = make_header (case title of None \<Rightarrow> lit ''Unknown Channel'' | Some t \<Rightarrow> t)
                     (format_datetime date) (get_match_summary km body) is_historical"
    have "length header \<ge> 110" unfolding header_def length_make_header by simp
    with a have tb: "truncated_body (max_message_length cfg) header body =
       lit ''[Message too long, content hidden for security]''"
      by (simp add: truncated_body_def)
    have fm: "full_message cfg km title date body is_historical =
        header @ lit ''[Message too long, content hidden for security]''"
      unfolding 1 header_def [symmetric] Let_def tb ..
    show "endswith (full_message cfg km title date body is_historical)
        (lit ''[Message too long, content hidden for security]'') \<and>
      length (full_message cfg km title date body is_historical) \<ge> 157"
      unfolding fm using \<open>length header \<ge> 110\<close> by (simp add: endswith_def)
  qed
  show ?thesis by (intro conjI 1 2 3 4)
qed

theorem sent_length_witness:
  "(47::int) \<le> 300 \<and> (300::int) < int (length (replicate 400 (120::nat))) \<and>
   (300::int) - int (length (replicate 150 (61::nat))) - 100 > 0 \<and>
   int (length (replicate 150 61 @ truncated_body 300 (replicate 150 61) (replicate 400 120))) = 234 \<and>
   max_message_length example_config = 200 \<and> length example_body = 500 \<and>
   endswith (full_message example_config (keyword_matcher example_client) (Some (lit ''News''))
     (m_date example_message) example_body False)
     (lit ''[Message too long, content hidden for security]'')"
proof -
  have a: "(300::int) < int (length (replicate 400 (120::nat))) \<and>
      (300::int) - int (length (replicate 150 (61::nat))) - 100 > 0"
    by simp
  have b: "max_message_length example_config = 200 \<and> length example_body = 500"
    by (simp add: example_config_def example_body_def)
  note t = sent_length [where max_len = 300 and header = "replicate 150 61" and body = "replicate 400 120",
      THEN conjunct2, THEN conjunct2, THEN conjunct1, THEN mp, OF a]
  note u = sent_length [of example_config "keyword_matcher example_client" "Some (lit ''News'')"
      "m_date example_message" example_body False,
      THEN conjunct2, THEN conjunct2, THEN conjunct2, THEN mp, OF b]
  from t have 1: "int (length (replicate 150 61 @ truncated_body 300 (replicate 150 61) (replicate 400 120))) = 234"
    by simp
  have c: "(47::int) \<le> 300" by simp
  from a b c 1 u show ?thesis by blast
qed

section \<open>One call of \_process\_message\<close>

lemma can_send_message_fields:
  "max_per_hour (snd (can_send_message rl cid t)) = max_per_hour rl"
  "max_per_channel_per_hour (snd (can_send_message rl cid t)) = max_per_channel_per_hour rl"
  "global_messages (snd (can_send_message rl cid t)) = cleanup_old_messages (global_messages rl) t"
  by (simp_all add: can_send_message_def Let_def split: option.splits)

lemma can_send_message_channel:
  "channel_queue_of (channel_messages (snd (can_send_message rl cid t))) c =
     (if cid = Some c \<and> int (length (cleanup_old_messages (global_messages rl) t)) < max_per_hour rl
      then cleanup_old_messages (channel_queue_of (channel_messages rl) c) t
      else channel_queue_of (channel_messages rl) c)"
  by (simp add: can_send_message_def Let_def channel_queue_of_def split: option.splits)

lemma can_send_message_answer:
  "fst (can_send_message rl cid t) \<longleftrightarrow>
     int (length (cleanup_old_messages (global_messages rl) t)) < max_per_hour rl \<and>
     (case cid of None \<Rightarrow> True
      | Some c \<Rightarrow> int (length (cleanup_old_messages (channel_queue_of (channel_messages rl) c) t))
                   < max_per_channel_per_hour rl)"
  by (simp add: can_send_message_def Let_def split: option.splits)


lemma process_message_early:
  "m_text msg = None \<or> m_text msg = Some [] \<or>
   (\<exists>body. m_text msg = Some body \<and> \<not> has_match (keyword_matcher st) body) \<or>
   (channel_id_of (m_peer_id msg), m_id msg) \<in> forwarded_messages st \<Longrightarrow>
   process_message e msg h st = (False, [], st)"
  by (cases "m_text msg") (auto simp: process_message_def Let_def)

lemma process_message_gated:
  assumes "m_text msg = Some body" "body \<noteq> []" "has_match (keyword_matcher st) body"
    and "k \<notin> forwarded_messages st"
    and "cid = channel_id_of (m_peer_id msg)" and "k = (cid, m_id msg)"
    and "cs = can_send_message (rate_limiter st) cid (time_can_send e)"
    and "st1 = st\<lparr>rate_limiter := snd cs\<rparr>"
  shows "process_message e msg h st =
     (if \<not> fst cs then (False, [], st1)
      else if too_soon st cid (now_utc e) then (False, [], st1)
      else (case forward_message e st1 msg h of
              (sent, Inl (FloodWaitError seconds)) \<Rightarrow>
                (False, [Forward k sent (Inl (FloodWaitError seconds)), Sleep seconds], st1)
            | (sent, Inl OtherError) \<Rightarrow> (False, [Forward k sent (Inl OtherError)], st1)
            | (sent, Inr u) \<Rightarrow>
                (True,
                 [Forward k sent (Inr u), Recorded cid (time_record e)] @
                 (if on_message_forwarded st then [Callback] else []),
                 on_success e cid k (snd cs) st)))"
  using assms by (simp add: process_message_def Let_def split_beta)

lemma process_message_outcome:
  assumes pm: "process_message e msg h st = (r, evs, st')"
    and c: "cid = channel_id_of (m_peer_id msg)" and k: "k = (cid, m_id msg)"
    and cs: "cs = can_send_message (rate_limiter st) cid (time_can_send e)"
    and st1: "st1 = st\<lparr>rate_limiter := snd cs\<rparr>"
  shows "(\<not> r \<and> evs = [] \<and> st' = st) \<or>
     (\<not> r \<and> evs = [] \<and> st' = st1 \<and> k \<notin> forwarded_messages st) \<or>
     (\<exists>sent err. \<not> r \<and>
        evs = Forward k sent (Inl err) # (case err of FloodWaitError d \<Rightarrow> [Sleep d] | OtherError \<Rightarrow> []) \<and>
        st' = st1 \<and> k \<notin> forwarded_messages st \<and> fst cs \<and> \<not> too_soon st cid (now_utc e) \<and>
        forward_message e st1 msg h = (sent, Inl err)) \<or>
     (\<exists>sent u. r \<and>
        evs = Forward k sent (Inr u) # Recorded cid (time_record e) #
              (if on_message_forwarded st then [Callback] else []) \<and>
        st' = on_success e cid k (snd cs) st \<and> k \<notin> forwarded_messages st \<and> fst cs \<and>
        \<not> too_soon st cid (now_utc e) \<and> forward_message e st1 msg h = (sent, Inr u))"
proof (cases "m_text msg = None \<or> m_text msg = Some [] \<or>
   (\<exists>body. m_text msg = Some body \<and> \<not> has_match (keyword_matcher st) body) \<or>
   (channel_id_of (m_peer_id msg), m_id msg) \<in> forwarded_messages st")
  case True
  from process_message_early [OF True, of e h] pm show ?thesis by simp
next
  case False
  then obtain body where gate: "m_text msg = Some body" "body \<noteq> []"
      "has_match (keyword_matcher st) body" "k \<notin> forwarded_messages st"
    unfolding k c by (cases "m_text msg") auto
  note eq = process_message_gated [OF gate c k cs st1, of h]
  show ?thesis
  proof (cases "fst cs \<and> \<not> too_soon st cid (now_utc e)")
    case False
    with pm have "\<not> r \<and> evs = [] \<and> st' = st1" unfolding eq by (simp split: if_splits)
    with gate(4) show ?thesis by blast
  next
    case True
    obtain sent res where fw: "forward_message e st1 msg h = (sent, res)"
      by (cases "forward_message e st1 msg h")
    show ?thesis
    proof (cases res)
      case (Inr u)
      with pm True fw have "r \<and>
        evs = Forward k sent (Inr u) # Recorded cid (time_record e) #
              (if on_message_forwarded st then [Callback] else []) \<and>
        st' = on_success e cid k (snd cs) st"
        unfolding eq by simp
      with gate(4) True fw Inr show ?thesis by blast
    next
      case (Inl err)
      with pm True fw have "\<not> r \<and>
        evs = Forward k sent (Inl err) # (case err of FloodWaitError d \<Rightarrow> [Sleep d] | OtherError \<Rightarrow> []) \<and>
        st' = st1"
        unfolding eq by (cases err) simp_all
      with gate(4) True fw Inl show ?thesis by blast
    qed
  qed
qed

lemma process_message_shapes:
  assumes pm: "process_message e msg h st = (r, evs, st')"
    and c: "cid = channel_id_of (m_peer_id msg)" and k: "k = (cid, m_id msg)"
  shows "(\<not> r \<and> evs = []) \<or>
     (\<not> r \<and> k \<notin> forwarded_messages st \<and>
        (\<exists>sent d. evs = [Forward k sent (Inl (FloodWaitError d)), Sleep d])) \<or>
     (\<not> r \<and> k \<notin> forwarded_messages st \<and> (\<exists>sent. evs = [Forward k sent (Inl OtherError)])) \<or>
     (r \<and> k \<notin> forwarded_messages st \<and>
        (\<exists>sent u. evs = [Forward k sent (Inr u), Recorded cid (time_record e)] \<or>
                  evs = [Forward k sent (Inr u), Recorded cid (time_record e), Callback]))"
proof -
  note out = process_message_outcome [OF pm c k refl refl]
  then consider (a) "\<not> r \<and> evs = []"
    | (b) sent err where "\<not> r" "k \<notin> forwarded_messages st"
        "evs = Forward k sent (Inl err) # (case err of FloodWaitError d \<Rightarrow> [Sleep d] | OtherError \<Rightarrow> [])"
    | (c) sent u where "r" "k \<notin> forwarded_messages st"
        "evs = Forward k sent (Inr u) # Recorded cid (time_record e) #
              (if on_message_forwarded st then [Callback] else [])"
    by blast
  then show ?thesis
  proof cases
    case a
    then show ?thesis by simp
  next
    case b
    then show ?thesis by (cases err) simp_all
  next
    case c
    then show ?thesis by (cases "on_message_forwarded st") simp_all
  qed
qed

lemma process_message_trace:
  assumes pm: "process_message e msg h st = (r, evs, st')"
    and c: "cid = channel_id_of (m_peer_id msg)" and k: "k = (cid, m_id msg)"
  shows "\<forall>ev\<in>set evs. forward_key ev = None \<or> forward_key ev = Some k"
    and "success_keys evs = (if r then [k] else [])"
    and "List.map_filter record_of evs = (if r then [(cid, time_record e)] else [])"
    and "evs \<noteq> [] \<longrightarrow> k \<notin> forwarded_messages st"
    and "once D evs \<longleftrightarrow> evs = [] \<or> k \<notin> D"
    and "forwards_of k' evs \<noteq> [] \<longrightarrow> k' = k"
  using process_message_shapes [OF pm c k]
  by (auto simp: success_keys_def List.map_filter_simps forwards_of_def split: if_splits)

lemma process_message_state:
  assumes pm: "process_message e msg h st = (r, evs, st')"
    and c: "cid = channel_id_of (m_peer_id msg)" and k: "k = (cid, m_id msg)"
    and cs: "cs = can_send_message (rate_limiter st) cid (time_can_send e)"
  shows "forwarded_messages st' =
           (if r then compact (list_of_set e) (max_tracked_messages st) (insert k (forwarded_messages st))
            else forwarded_messages st)"
    and "last_forward_time st' =
           (if r then (last_forward_time st)(cid \<mapsto> now_utc e) else last_forward_time st)"
    and "max_tracked_messages st' = max_tracked_messages st"
    and "config st' = config st"
    and "keyword_matcher st' = keyword_matcher st"
    and "on_message_forwarded st' = on_message_forwarded st"
    and "if r then fst cs \<and> rate_limiter st' = record_message (snd cs) cid (time_record e)
         else rate_limiter st' = rate_limiter st \<or> rate_limiter st' = snd cs"
  using process_message_outcome [OF pm c k cs refl]
  by (auto simp: on_success_def)

text \<open>The worked session, step by step.\<close>

lemma short_has_match:
  "has_match (KeywordMatcher_init [lit ''deploy'']) (lit ''We deploy at noon.'')"
  by (simp add: matcher_defs upt_rec)

lemma example_client_fields:
  "keyword_matcher example_client = KeywordMatcher_init [lit ''deploy'']"
  "config example_client = example_config"
  "forwarded_messages example_client = {}"
  "last_forward_time example_client = Map.empty"
  "rate_limiter example_client = RateLimiter_init 60 20"
  "max_tracked_messages example_client = 10000"
  "on_message_forwarded example_client = False"
  by (simp_all add: example_client_def TeleScoutClient_init_def example_config_def)

lemma can_send_init:
  "can_send_message (RateLimiter_init 60 20) None t = (True, RateLimiter_init 60 20)"
  "can_send_message (RateLimiter_init 60 20) (Some c) t =
     (True, (RateLimiter_init 60 20)\<lparr>channel_messages := [c \<mapsto> []]\<rparr>)"
  by (simp_all add: can_send_message_def RateLimiter_init_def cleanup_old_messages_def
      channel_queue_of_def)

lemma short_message_fields:
  "m_text short_message = Some (lit ''We deploy at noon.'')"
  "m_peer_id short_message = PeerChannel 42" "m_id short_message = 1000"
  "m_text user_message = Some (lit ''We deploy at noon.'')"
  "m_peer_id user_message = PeerUser 7" "m_id user_message = 5"
  "m_text chat_message = Some (lit ''We deploy at noon.'')"
  "m_peer_id chat_message = PeerChat 9" "m_id chat_message = 5"
  by (simp_all add: short_message_def user_message_def chat_message_def del: lit_Cons lit_Nil)

lemma example_env_fields:
  "get_entity example_env = Inr (Some (lit ''News''))" "send_message example_env = Inr ()"
  "time_can_send example_env = 100" "time_record example_env = 101" "now_utc example_env = 100"
  "list_of_set example_env = (\<lambda>S. [])"
  "get_entity flood_env = Inr (Some (lit ''News''))" "send_message flood_env = Inl (FloodWaitError 2)"
  "time_can_send flood_env = 50" "time_record flood_env = 51" "now_utc flood_env = 50"
  by (simp_all add: example_env_def flood_env_def del: lit_Cons lit_Nil)

lemma deploy_step:
  assumes t: "m_text msg = Some (lit ''We deploy at noon.'')"
    and km: "keyword_matcher st = KeywordMatcher_init [lit ''deploy'']"
    and nf: "(channel_id_of (m_peer_id msg), m_id msg) \<notin> forwarded_messages st"
    and cs: "can_send_message (rate_limiter st) (channel_id_of (m_peer_id msg)) (time_can_send e) = (True, rl)"
    and ts: "last_forward_time st (channel_id_of (m_peer_id msg)) = None"
    and ge: "get_entity e = Inr title"
  shows "process_message e msg h st =
     (case send_message e of
        Inl (FloodWaitError d) \<Rightarrow>
          (False,
           [Forward (channel_id_of (m_peer_id msg), m_id msg)
              (fst (forward_message e (st\<lparr>rate_limiter := rl\<rparr>) msg h)) (Inl (FloodWaitError d)),
            Sleep d],
           st\<lparr>rate_limiter := rl\<rparr>)
      | Inl OtherError \<Rightarrow>
          (False,
           [Forward (channel_id_of (m_peer_id msg), m_id msg)
              (fst (forward_message e (st\<lparr>rate_limiter := rl\<rparr>) msg h)) (Inl OtherError)],
           st\<lparr>rate_limiter := rl\<rparr>)
      | Inr u \<Rightarrow>
          (True,
           [Forward (channel_id_of (m_peer_id msg), m_id msg)
              (fst (forward_message e (st\<lparr>rate_limiter := rl\<rparr>) msg h)) (Inr u),
            Recorded (channel_id_of (m_peer_id msg)) (time_record e)] @
           (if on_message_forwarded st then [Callback] else []),
           on_success e (channel_id_of (m_peer_id msg)) (channel_id_of (m_peer_id msg), m_id msg) rl st))"
proof -
  have n: "lit ''We deploy at noon.'' \<noteq> []" by simp
  have m: "has_match (keyword_matcher st) (lit ''We deploy at noon.'')"
    unfolding km by (rule short_has_match)
  note eq = process_message_gated [OF t n m nf refl refl refl refl, of e h]
  show ?thesis
    unfolding eq cs
    by (simp add: too_soon_def ts forward_message_def ge t split: sum.splits error.splits
        del: lit_Cons lit_Nil)
qed

lemma first_success:
  assumes "m_text msg = Some (lit ''We deploy at noon.'')"
  shows "process_message example_env msg h example_client =
     (True,
      [Forward (channel_id_of (m_peer_id msg), m_id msg)
         (fst (forward_message example_env
            (example_client\<lparr>rate_limiter :=
               snd (can_send_message (RateLimiter_init 60 20) (channel_id_of (m_peer_id msg)) 100)\<rparr>) msg h))
         (Inr ()),
       Recorded (channel_id_of (m_peer_id msg)) 101],
      on_success example_env (channel_id_of (m_peer_id msg)) (channel_id_of (m_peer_id msg), m_id msg)
        (snd (can_send_message (RateLimiter_init 60 20) (channel_id_of (m_peer_id msg)) 100))
        example_client)"
proof -
  have cs: "can_send_message (rate_limiter example_client) (channel_id_of (m_peer_id msg))
      (time_can_send example_env) =
      (True, snd (can_send_message (RateLimiter_init 60 20) (channel_id_of (m_peer_id msg)) 100))"
    by (cases "channel_id_of (m_peer_id msg)")
       (simp_all add: example_client_fields example_env_fields can_send_init)
  show ?thesis
    by (subst deploy_step [OF assms _ _ cs, where title = "Some (lit ''News'')"])
       (simp_all add: example_client_fields example_env_fields del: lit_Cons lit_Nil)
qed

lemma compact_noop: "int (card S) \<le> cap \<Longrightarrow> compact f cap S = S"
  by (simp add: compact_def)

lemma first_success_forwarded:
  "forwarded_messages (on_success example_env cid k rl example_client) = {k}"
  by (simp add: on_success_def example_client_fields compact_noop)

section \<open>Flood wait\<close>

text \<open>
  Claim C3.  When an invocation of the forwarder ends with a flood-wait error of \<open>d\<close>
  seconds, \<open>_process_message\<close> returns \<open>False\<close>; the forwarder was invoked once
  and the only other effect is a sleep of \<open>d\<close> seconds; the message is not in the
  dedup set, which is unchanged; \<open>last_forward_time\<close> is unchanged; nothing is recorded
  by the rate limiter, whose deques are those of before, pruned by the
  \<open>can_send_message\<close> that preceded the forward; and nothing else of the client changes.
\<close>

theorem flood_wait_atomic:
  assumes pm: "process_message e msg h st = (r, evs, st')"
    and fl: "Forward k sent (Inl (FloodWaitError d)) \<in> set evs"
  shows "\<not> r \<and> evs = [Forward k sent (Inl (FloodWaitError d)), Sleep d] \<and>
     k = (channel_id_of (m_peer_id msg), m_id msg) \<and>
     k \<notin> forwarded_messages st' \<and> forwarded_messages st' = forwarded_messages st \<and>
     last_forward_time st' = last_forward_time st \<and>
     global_times evs = [] \<and>
     global_messages (rate_limiter st') =
       cleanup_old_messages (global_messages (rate_limiter st)) (time_can_send e) \<and>
     channel_queue_of (channel_messages (rate_limiter st')) c =
       (if channel_id_of (m_peer_id msg) = Some c
        then cleanup_old_messages (channel_queue_of (channel_messages (rate_limiter st)) c) (time_can_send e)
        else channel_queue_of (channel_messages (rate_limiter st)) c) \<and>
     st' = st\<lparr>rate_limiter :=
                snd (can_send_message (rate_limiter st) (channel_id_of (m_peer_id msg)) (time_can_send e))\<rparr>"
proof -
  define cid where "cid = channel_id_of (m_peer_id msg)"
  define k0 where "k0 = (cid, m_id msg)"
  define cs where "cs = can_send_message (rate_limiter st) cid (time_can_send e)"
  define st1 where "st1 = st\<lparr>rate_limiter := snd cs\<rparr>"
  from process_message_outcome [OF pm cid_def k0_def cs_def st1_def] fl
  obtain sent' err where o: "\<not> r"
      "evs = Forward k0 sent' (Inl err) # (case err of FloodWaitError d \<Rightarrow> [Sleep d] | OtherError \<Rightarrow> [])"
      "st' = st1" "k0 \<notin> forwarded_messages st" "fst cs"
    by auto
  from o(2) fl have e: "err = FloodWaitError d" "k = k0" "sent' = sent"
    by (cases err; auto)+
  have g: "int (length (cleanup_old_messages (global_messages (rate_limiter st)) (time_can_send e)))
      < max_per_hour (rate_limiter st)"
    using o(5) unfolding cs_def can_send_message_answer by simp
  have 1: "evs = [Forward k sent (Inl (FloodWaitError d)), Sleep d]"
    using o(2) e by simp
  have 2: "global_times evs = []"
    unfolding 1 by (simp add: global_times_def List.map_filter_simps)
  have 3: "global_messages (rate_limiter st') =
       cleanup_old_messages (global_messages (rate_limiter st)) (time_can_send e)"
    unfolding o(3) st1_def cs_def by (simp add: can_send_message_fields)
  have 4: "channel_queue_of (channel_messages (rate_limiter st')) c =
       (if channel_id_of (m_peer_id msg) = Some c
        then cleanup_old_messages (channel_queue_of (channel_messages (rate_limiter st)) c) (time_can_send e)
        else channel_queue_of (channel_messages (rate_limiter st)) c)"
    unfolding o(3) st1_def cs_def using g by (simp add: can_send_message_channel cid_def)
  have 5: "forwarded_messages st' = forwarded_messages st" "last_forward_time st' = last_forward_time st"
    unfolding o(3) st1_def by simp_all
  have 6: "st' = st\<lparr>rate_limiter :=
                snd (can_send_message (rate_limiter st) (channel_id_of (m_peer_id msg)) (time_can_send e))\<rparr>"
    unfolding o(3) st1_def cs_def cid_def ..
  have 7: "k = (channel_id_of (m_peer_id msg), m_id msg)" "k \<notin> forwarded_messages st'"
    using e(2) o(4) 5(1) by (simp_all add: k0_def cid_def)
  from o(1) 1 2 3 4 5 6 7 show ?thesis by blast
qed

lemma flood_example:
  "process_message flood_env short_message True example_client =
     (False,
      [Forward (Some 42, 1000)
         (fst (forward_message flood_env
                 (example_client\<lparr>rate_limiter := (RateLimiter_init 60 20)\<lparr>channel_messages := [42 \<mapsto> []]\<rparr>\<rparr>)
                 short_message True))
         (Inl (FloodWaitError 2)),
       Sleep 2],
      example_client\<lparr>rate_limiter := (RateLimiter_init 60 20)\<lparr>channel_messages := [42 \<mapsto> []]\<rparr>\<rparr>)"
proof -
  have t: "m_text short_message = Some (lit ''We deploy at noon.'')"
    and p: "channel_id_of (m_peer_id short_message) = Some 42" and i: "m_id short_message = 1000"
    by (simp_all add: short_message_def channel_id_of_def)
  have n: "lit ''We deploy at noon.'' \<noteq> []" by simp
  have m: "has_match (keyword_matcher example_client) (lit ''We deploy at noon.'')"
    unfolding example_client_fields by (rule short_has_match)
  have f: "(Some 42, 1000) \<notin> forwarded_messages example_client"
    by (simp add: example_client_fields)
  have kk: "(Some 42, 1000) = (Some 42, m_id short_message)" by (simp add: i)
  note eq = process_message_gated [OF t n m f p [symmetric] kk refl refl, of flood_env True]
  show ?thesis
    unfolding eq example_client_fields can_send_init
    by (simp add: too_soon_def example_client_fields forward_message_def flood_env_def t
        del: lit_Cons lit_Nil)
qed

theorem flood_wait_atomic_witness:
  "fst (process_message flood_env short_message True example_client) = False \<and>
   fst (snd (process_message flood_env short_message True example_client)) =
     [Forward (Some 42, 1000)
         (fst (forward_message flood_env
                 (example_client\<lparr>rate_limiter := (RateLimiter_init 60 20)\<lparr>channel_messages := [42 \<mapsto> []]\<rparr>\<rparr>)
                 short_message True))
         (Inl (FloodWaitError 2)),
       Sleep 2] \<and>
   forwarded_messages (snd (snd (process_message flood_env short_message True example_client))) = {} \<and>
   last_forward_time (snd (snd (process_message flood_env short_message True example_client))) = Map.empty \<and>
   global_messages (rate_limiter (snd (snd (process_message flood_env short_message True example_client)))) = []"
proof -
  note t = flood_wait_atomic [OF flood_example, of "(Some 42, 1000)" _ 2 42]
  have "Forward (Some 42, 1000)
         (fst (forward_message flood_env
                 (example_client\<lparr>rate_limiter := (RateLimiter_init 60 20)\<lparr>channel_messages := [42 \<mapsto> []]\<rparr>\<rparr>)
                 short_message True))
         (Inl (FloodWaitError 2)) \<in> set [Forward (Some 42, 1000)
         (fst (forward_message flood_env
                 (example_client\<lparr>rate_limiter := (RateLimiter_init 60 20)\<lparr>channel_messages := [42 \<mapsto> []]\<rparr>\<rparr>)
                 short_message True))
         (Inl (FloodWaitError 2)),
       Sleep 2]"
    by simp
  from t [OF this]
  have "forwarded_messages
          (example_client\<lparr>rate_limiter := (RateLimiter_init 60 20)\<lparr>channel_messages := [42 \<mapsto> []]\<rparr>\<rparr>) =
        forwarded_messages example_client \<and>
        last_forward_time
          (example_client\<lparr>rate_limiter := (RateLimiter_init 60 20)\<lparr>channel_messages := [42 \<mapsto> []]\<rparr>\<rparr>) =
        last_forward_time example_client \<and>
        global_messages (rate_limiter
          (example_client\<lparr>rate_limiter := (RateLimiter_init 60 20)\<lparr>channel_messages := [42 \<mapsto> []]\<rparr>\<rparr>)) =
        cleanup_old_messages (global_messages (rate_limiter example_client)) (time_can_send flood_env)"
    by blast
  then show ?thesis
    unfolding flood_example
    by (simp add: example_client_fields RateLimiter_init_def cleanup_old_messages_def)
qed

section \<open>Sources without a channel id\<close>

lemma channel_id_of_None: "channel_id_of p = None \<longleftrightarrow> (\<forall>c. p \<noteq> PeerChannel c)"
  by (cases p) (simp_all add: channel_id_of_def)

lemma record_message_None_channels:
  "channel_messages (record_message rl None t) = channel_messages rl"
  by (simp add: record_message_def)

lemma can_send_message_None:
  "can_send_message rl None t =
     (int (length (cleanup_old_messages (global_messages rl) t)) < max_per_hour rl,
      rl\<lparr>global_messages := cleanup_old_messages (global_messages rl) t\<rparr>)"
  by (simp add: can_send_message_def Let_def)

lemma process_message_peer:
  assumes "channel_id_of p = channel_id_of (m_peer_id msg)"
  shows "process_message e (msg\<lparr>m_peer_id := p\<rparr>) h st = process_message e msg h st"
proof -
  have fw: "forward_message e s (msg\<lparr>m_peer_id := p\<rparr>) h = forward_message e s msg h" for s
    by (simp add: forward_message_def split: sum.splits option.splits)
  show ?thesis
  proof (cases "m_text msg")
    case None
    then show ?thesis by (simp add: process_message_def)
  next
    case (Some body)
    then show ?thesis
      using assms by (simp add: process_message_def fw Let_def split_beta cong: if_cong)
  qed
qed

text \<open>
  Claim C10.  For a message whose peer is not a \<open>PeerChannel\<close>, the source id is
  \<open>None\<close>.  The answer of \<open>can_send_message\<close> is then the global check alone, and
  processing the message leaves the per-channel deques as they are.  The dedup key is
  \<open>(None, message id)\<close>: the message is rejected when that key is in the dedup set,
  every invocation of the forwarder carries that key, and a successful forward adds that
  key.  The spacing gate reads and writes the slot \<open>None\<close> of \<open>last_forward_time\<close>.
  Processing does not depend on which peer without a channel id the message has.
\<close>

theorem no_channel_id_source:
  assumes np: "\<forall>c. m_peer_id msg \<noteq> PeerChannel c"
    and pm: "process_message e msg h st = (r, evs, st')"
  shows "channel_id_of (m_peer_id msg) = None \<and>
     fst (can_send_message (rate_limiter st) (channel_id_of (m_peer_id msg)) t) =
       (int (length (cleanup_old_messages (global_messages (rate_limiter st)) t))
          < max_per_hour (rate_limiter st)) \<and>
     channel_messages (rate_limiter st') = channel_messages (rate_limiter st) \<and>
     ((None, m_id msg) \<in> forwarded_messages st \<longrightarrow> \<not> r \<and> evs = [] \<and> st' = st) \<and>
     ((\<exists>last_time. last_forward_time st None = Some last_time \<and>
          now_utc e - last_time < of_int (forward_delay (config st))) \<longrightarrow> \<not> r \<and> evs = []) \<and>
     (\<forall>ev k. ev \<in> set evs \<and> forward_key ev = Some k \<longrightarrow> k = (None, m_id msg)) \<and>
     (r \<longrightarrow> last_forward_time st' = (last_forward_time st)(None \<mapsto> now_utc e) \<and>
            forwarded_messages st' =
              compact (list_of_set e) (max_tracked_messages st)
                (insert (None, m_id msg) (forwarded_messages st))) \<and>
     (\<forall>p. (\<forall>c. p \<noteq> PeerChannel c) \<longrightarrow>
          process_message e (msg\<lparr>m_peer_id := p\<rparr>) h st = process_message e msg h st)"
proof -
  from np have cid: "channel_id_of (m_peer_id msg) = None"
    by (simp add: channel_id_of_None)
  define cs where "cs = can_send_message (rate_limiter st) None (time_can_send e)"
  define st1 where "st1 = st\<lparr>rate_limiter := snd cs\<rparr>"
  have ch1: "channel_messages (rate_limiter st1) = channel_messages (rate_limiter st)"
    by (simp add: st1_def cs_def can_send_message_None)
  note out = process_message_outcome [OF pm cid [symmetric] refl cs_def st1_def]
  have 2: "fst (can_send_message (rate_limiter st) (channel_id_of (m_peer_id msg)) t) =
       (int (length (cleanup_old_messages (global_messages (rate_limiter st)) t))
          < max_per_hour (rate_limiter st))"
    unfolding cid by (simp add: can_send_message_None)
  have 3: "channel_messages (rate_limiter st') = channel_messages (rate_limiter st)"
    using out ch1
    by (auto simp: on_success_def record_message_None_channels cs_def can_send_message_None)
  have 4: "(None, m_id msg) \<in> forwarded_messages st \<longrightarrow> \<not> r \<and> evs = [] \<and> st' = st"
    using out by auto
  have 5: "(\<exists>last_time. last_forward_time st None = Some last_time \<and>
          now_utc e - last_time < of_int (forward_delay (config st))) \<longrightarrow> \<not> r \<and> evs = []"
    using out by (auto simp: too_soon_def)
  have 6: "\<forall>ev k. ev \<in> set evs \<and> forward_key ev = Some k \<longrightarrow> k = (None, m_id msg)"
    using process_message_trace(1) [OF pm cid [symmetric] refl] by auto
  have 7: "r \<longrightarrow> last_forward_time st' = (last_forward_time st)(None \<mapsto> now_utc e) \<and>
            forwarded_messages st' =
              compact (list_of_set e) (max_tracked_messages st)
                (insert (None, m_id msg) (forwarded_messages st))"
    using out by (auto simp: on_success_def)
  have 8: "\<forall>p. (\<forall>c. p \<noteq> PeerChannel c) \<longrightarrow>
          process_message e (msg\<lparr>m_peer_id := p\<rparr>) h st = process_message e msg h st"
  proof (intro allI impI)
    fix p :: peer
    assume "\<forall>c. p \<noteq> PeerChannel c"
    then have "channel_id_of p = None" by (simp add: channel_id_of_None)
    with cid have "channel_id_of p = channel_id_of (m_peer_id msg)" by simp
    then show "process_message e (msg\<lparr>m_peer_id := p\<rparr>) h st = process_message e msg h st"
      by (rule process_message_peer)
  qed
  from cid 2 3 4 5 6 7 8 show ?thesis by blast
qed

theorem no_channel_id_source_witness:
  "(\<forall>c. m_peer_id chat_message \<noteq> PeerChannel c) \<and>
   fst (process_message example_env user_message False example_client) \<and>
   process_message example_env chat_message False
     (snd (snd (process_message example_env user_message False example_client))) =
   (False, [], snd (snd (process_message example_env user_message False example_client)))"
proof -
  define st where "st = snd (snd (process_message example_env user_message False example_client))"
  have np: "\<forall>c. m_peer_id chat_message \<noteq> PeerChannel c"
    by (simp add: short_message_fields)
  have cu: "channel_id_of (m_peer_id user_message) = None"
    by (simp add: short_message_fields channel_id_of_def)
  note 1 = first_success [OF short_message_fields(4), of False, unfolded cu short_message_fields(6)]
  have f: "(None, m_id chat_message) \<in> forwarded_messages st"
    unfolding st_def 1 by (simp add: first_success_forwarded short_message_fields)
  define X where "X = process_message example_env chat_message False st"
  have pm: "process_message example_env chat_message False st = (fst X, fst (snd X), snd (snd X))"
    by (simp add: X_def)
  from no_channel_id_source [OF np pm] f
  have "\<not> fst X \<and> fst (snd X) = [] \<and> snd (snd X) = st" by blast
  then have "X = (False, [], st)" by (cases X) simp
  moreover have "fst (process_message example_env user_message False example_client)"
    unfolding 1 by simp
  ultimately show ?thesis using np unfolding X_def st_def by blast
qed

section \<open>Forwarding at most once\<close>

lemma run_Nil: "run [] st = ([], st)"
  by (simp add: run_def)

lemma run_snoc: "run (inputs @ [x]) st = step (run inputs st) x"
  by (simp add: run_def)

lemma step_eq:
  "step (tr, st) (e, msg, h) =
     (tr @ fst (snd (process_message e msg h st)), snd (snd (process_message e msg h st)))"
  by (simp add: step_def split: prod.splits)

lemma success_keys_append: "success_keys (tr @ evs) = success_keys tr @ success_keys evs"
  by (simp add: success_keys_def List.map_filter_def)

lemma success_keys_Cons:
  "success_keys (ev # tr) =
     (case forward_key ev of
        None \<Rightarrow> success_keys tr
      | Some k \<Rightarrow> if succeeded ev then k # success_keys tr else success_keys tr)"
  by (cases ev) (simp_all add: success_keys_def List.map_filter_simps)

lemma once_append:
  "once D (tr @ evs) \<longleftrightarrow> once D tr \<and> once (D \<union> set (success_keys tr)) evs"
proof (induction tr arbitrary: D)
  case Nil
  then show ?case by (simp add: success_keys_def List.map_filter_simps)
next
  case (Cons ev tr)
  show ?case
  proof (cases "forward_key ev")
    case None
    then show ?thesis using Cons.IH [of D] by (simp add: success_keys_Cons)
  next
    case (Some k)
    show ?thesis
    proof (cases "succeeded ev")
      case True
      with Some show ?thesis using Cons.IH [of "insert k D"] by (simp add: success_keys_Cons)
    next
      case False
      with Some show ?thesis using Cons.IH [of D] by (simp add: success_keys_Cons)
    qed
  qed
qed

lemma once_no_forward: "once D tr \<Longrightarrow> k \<in> D \<Longrightarrow> forwards_of k tr = []"
proof (induction tr arbitrary: D)
  case Nil
  then show ?case by (simp add: forwards_of_def)
next
  case (Cons ev tr)
  show ?case
  proof (cases "forward_key ev")
    case None
    with Cons.prems have "once D tr" by simp
    from Cons.IH [OF this Cons.prems(2)] None show ?thesis by (simp add: forwards_of_def)
  next
    case (Some k')
    with Cons.prems have n: "k' \<notin> D" and o: "once (if succeeded ev then insert k' D else D) tr"
      by simp_all
    from Cons.prems(2) have "k \<in> (if succeeded ev then insert k' D else D)" by simp
    from Cons.IH [OF o this] Some n Cons.prems(2) show ?thesis
      by (auto simp: forwards_of_def)
  qed
qed

lemma successes_subset: "forwards_of k tr = [] \<Longrightarrow> successes_of k tr = []"
  by (auto simp: forwards_of_def successes_of_def filter_empty_conv)

lemma once_successes: "once D tr \<Longrightarrow> length (successes_of k tr) \<le> 1"
proof (induction tr arbitrary: D)
  case Nil
  then show ?case by (simp add: successes_of_def)
next
  case (Cons ev tr)
  show ?case
  proof (cases "forward_key ev")
    case None
    with Cons.prems have "once D tr" by simp
    from Cons.IH [OF this] None show ?thesis by (simp add: successes_of_def)
  next
    case (Some k')
    with Cons.prems have o: "once (if succeeded ev then insert k' D else D) tr" by simp
    show ?thesis
    proof (cases "k' = k \<and> succeeded ev")
      case True
      with o have "once (insert k D) tr" by simp
      then have "forwards_of k tr = []" by (rule once_no_forward) simp
      then have "successes_of k tr = []" by (rule successes_subset)
      then show ?thesis by (simp add: successes_of_def)
    next
      case False
      with Cons.IH [OF o] Some show ?thesis by (auto simp: successes_of_def)
    qed
  qed
qed

lemma dedup_invariant:
  assumes "forwarded_messages st0 = {}" and "max_tracked_messages st0 = 10000"
  shows "run inputs st0 = (tr, st) \<Longrightarrow> length (success_keys tr) \<le> 10000 \<Longrightarrow>
     forwarded_messages st = set (success_keys tr) \<and> distinct (success_keys tr) \<and>
     max_tracked_messages st = 10000 \<and> once {} tr"
proof (induction inputs arbitrary: tr st rule: rev_induct)
  case Nil
  with assms show ?case by (simp add: run_Nil success_keys_def List.map_filter_simps)
next
  case (snoc x inputs)
  obtain tr0 s0 where r0: "run inputs st0 = (tr0, s0)" by (cases "run inputs st0")
  obtain e msg h where x: "x = (e, msg, h)" by (cases x)
  obtain r evs st' where pm: "process_message e msg h s0 = (r, evs, st')"
    by (cases "process_message e msg h s0")
  from snoc.prems(1) r0 x pm have tr: "tr = tr0 @ evs" and st: "st = st'"
    by (simp_all add: run_snoc step_eq)
  define k where "k = (channel_id_of (m_peer_id msg), m_id msg)"
  note trace = process_message_trace [OF pm refl k_def]
  note state = process_message_state [OF pm refl k_def refl]
  have sk: "success_keys tr = success_keys tr0 @ (if r then [k] else [])"
    unfolding tr success_keys_append trace(2) ..
  with snoc.prems(2) have "length (success_keys tr0) \<le> 10000" by simp
  from snoc.IH [OF r0 this]
  have ih: "forwarded_messages s0 = set (success_keys tr0)" "distinct (success_keys tr0)"
      "max_tracked_messages s0 = 10000" "once {} tr0"
    by simp_all
  have nk: "evs \<noteq> [] \<longrightarrow> k \<notin> set (success_keys tr0)"
    using trace(4) ih(1) by simp
  have o: "once {} tr"
    unfolding tr once_append using ih(4) nk by (auto simp: trace(5))
  have mt: "max_tracked_messages st = 10000"
    unfolding st state(3) ih(3) ..
  show ?case
  proof (cases r)
    case False
    with sk state(1) ih o mt st show ?thesis by simp
  next
    case True
    then have ne: "evs \<noteq> []" using process_message_shapes [OF pm refl k_def] by auto
    with nk have kn: "k \<notin> set (success_keys tr0)" by simp
    from True sk snoc.prems(2) have len: "length (success_keys tr0) + 1 \<le> 10000" by simp
    have "card (insert k (set (success_keys tr0))) = length (success_keys tr0) + 1"
      using kn ih(2) by (simp add: distinct_card)
    with len have "int (card (insert k (set (success_keys tr0)))) \<le> 10000" by simp
    then have "compact (list_of_set e) 10000 (insert k (set (success_keys tr0))) =
        insert k (set (success_keys tr0))"
      by (rule compact_noop)
    with True state(1) ih(1,3) st have "forwarded_messages st = insert k (set (success_keys tr0))"
      by simp
    with True sk kn ih(2) o mt show ?thesis by simp
  qed
qed

lemma flood_then_success:
  "fst (run [(flood_env, short_message, True), (example_env, short_message, True)] example_client) =
     [Forward (Some 42, 1000) (fst (forward_message flood_env after_flood short_message True))
        (Inl (FloodWaitError 2)),
      Sleep 2,
      Forward (Some 42, 1000) (fst (forward_message example_env after_flood short_message True)) (Inr ()),
      Recorded (Some 42) 101]"
proof -
  have c: "channel_id_of (m_peer_id short_message) = Some 42"
    by (simp add: short_message_fields channel_id_of_def)
  have 1: "process_message flood_env short_message True example_client =
     (False,
      [Forward (Some 42, 1000) (fst (forward_message flood_env after_flood short_message True))
        (Inl (FloodWaitError 2)), Sleep 2],
      after_flood)"
    unfolding after_flood_def
    by (subst deploy_step [where title = "Some (lit ''News'')" and
          rl = "(RateLimiter_init 60 20)\<lparr>channel_messages := [42 \<mapsto> []]\<rparr>"])
       (simp_all add: short_message_fields example_client_fields example_env_fields channel_id_of_def can_send_init
          del: lit_Cons lit_Nil)
  have cs2: "can_send_message ((RateLimiter_init 60 20)\<lparr>channel_messages := [42 \<mapsto> []]\<rparr>) (Some 42) 100 =
      (True, (RateLimiter_init 60 20)\<lparr>channel_messages := [42 \<mapsto> []]\<rparr>)"
    by (simp add: can_send_message_def RateLimiter_init_def cleanup_old_messages_def channel_queue_of_def)
  have 2: "process_message example_env short_message True after_flood =
     (True,
      [Forward (Some 42, 1000) (fst (forward_message example_env after_flood short_message True)) (Inr ()),
       Recorded (Some 42) 101],
      on_success example_env (Some 42) (Some 42, 1000)
        ((RateLimiter_init 60 20)\<lparr>channel_messages := [42 \<mapsto> []]\<rparr>) after_flood)"
    by (subst deploy_step [where title = "Some (lit ''News'')" and
          rl = "(RateLimiter_init 60 20)\<lparr>channel_messages := [42 \<mapsto> []]\<rparr>"])
       (simp_all add: after_flood_def short_message_fields example_client_fields example_env_fields channel_id_of_def cs2
          del: lit_Cons lit_Nil)
  show ?thesis
    by (simp add: run_def step_eq 1 2 del: lit_Cons lit_Nil)
qed

lemma success_then_replay:
  "fst (run [(example_env, short_message, True), (example_env, short_message, False)] example_client) =
     [Forward (Some 42, 1000)
        (fst (forward_message example_env after_flood short_message True)) (Inr ()),
      Recorded (Some 42) 101]"
proof -
  have c: "channel_id_of (m_peer_id short_message) = Some 42"
    by (simp add: short_message_fields channel_id_of_def)
  note 1 = first_success [OF short_message_fields(1), of True, unfolded c short_message_fields(3)]
  have 2: "process_message example_env short_message False
      (on_success example_env (Some 42) (Some 42, 1000) rl example_client) =
      (False, [], on_success example_env (Some 42) (Some 42, 1000) rl example_client)" for rl
    by (rule process_message_early) (simp add: first_success_forwarded c short_message_fields(3))
  show ?thesis
    by (simp add: run_def step_eq 1 2 can_send_init after_flood_def del: lit_Cons lit_Nil)
qed

text \<open>
  Claim C1, as stated, on a session that delivers message 1000 of channel 42 twice, where
  the first send ends with a flood wait: the forwarder is invoked twice for the key
  \<open>(42, 1000)\<close>.
\<close>

theorem forwarder_invoked_twice:
  "length (forwards_of (Some 42, 1000)
     (fst (run [(flood_env, short_message, True), (example_env, short_message, True)]
             (TeleScoutClient_init example_config)))) = 2"
  unfolding example_client_def [symmetric] flood_then_success
  by (simp add: forwards_of_def)

text \<open>
  Claim C1, amended.  In a session that starts from a fresh client and has at most 10,000
  successful forwards, the forwarder returns successfully at most once for a dedup key,
  and once it has succeeded for a key it is never invoked for that key again.  (An
  invocation that fails leaves the key out of the dedup set, so the forwarder is invoked
  again when the message is delivered again.)
\<close>

theorem at_most_once_success:
  assumes "run inputs (TeleScoutClient_init cfg) = (tr, st)"
    and "length (success_keys tr) \<le> 10000"
  shows "length (successes_of k tr) \<le> 1 \<and>
     (\<forall>tr1 ev tr2. tr = tr1 @ ev # tr2 \<and> forward_key ev = Some k \<and> succeeded ev \<longrightarrow>
        forwards_of k tr2 = [])"
proof -
  have i: "forwarded_messages (TeleScoutClient_init cfg) = {}"
      "max_tracked_messages (TeleScoutClient_init cfg) = 10000"
    by (simp_all add: TeleScoutClient_init_def)
  from dedup_invariant [OF i assms] have o: "once {} tr" by simp
  then have 1: "length (successes_of k tr) \<le> 1" by (rule once_successes)
  have 2: "\<forall>tr1 ev tr2. tr = tr1 @ ev # tr2 \<and> forward_key ev = Some k \<and> succeeded ev \<longrightarrow>
        forwards_of k tr2 = []"
  proof (intro allI impI)
    fix tr1 ev tr2
    assume a: "tr = tr1 @ ev # tr2 \<and> forward_key ev = Some k \<and> succeeded ev"
    with o have "once ({} \<union> set (success_keys tr1)) (ev # tr2)"
      by (simp add: once_append)
    with a have "once (insert k (set (success_keys tr1))) tr2" by simp
    then show "forwards_of k tr2 = []" by (rule once_no_forward) simp
  qed
  from 1 2 show ?thesis by blast
qed

theorem at_most_once_success_witness:
  "length (success_keys
     (fst (run [(example_env, short_message, True), (example_env, short_message, False)]
             (TeleScoutClient_init example_config)))) \<le> 10000 \<and>
   length (successes_of (Some 42, 1000)
     (fst (run [(example_env, short_message, True), (example_env, short_message, False)]
             (TeleScoutClient_init example_config)))) \<le> 1"
proof -
  have l: "length (success_keys
     (fst (run [(example_env, short_message, True), (example_env, short_message, False)]
             (TeleScoutClient_init example_config)))) \<le> 10000"
    unfolding example_client_def [symmetric] success_then_replay
    by (simp add: success_keys_def List.map_filter_simps)
  from at_most_once_success [OF prod.collapse [symmetric] l, of "(Some 42, 1000)"] l
  show ?thesis by blast
qed

section \<open>The rate limits\<close>





















section \<open>The capacity of the dedup set\<close>

lemma slice_from_neg: "k < 0 \<Longrightarrow> slice_from k xs = drop (nat (int (length xs) + k)) xs"
  by (simp add: slice_from_def)

lemma compact_subset: "set (f S) = S \<Longrightarrow> compact f cap S \<subseteq> S"
  by (auto simp: compact_def slice_from_def Let_def dest: in_set_dropD)

lemma compact_card_le:
  assumes "set (f S) = S" and "distinct (f S)" and "1 \<le> cap"
  shows "int (card (compact f cap S)) \<le> cap"
proof (cases "int (card S) > cap")
  case False
  then show ?thesis by (simp add: compact_def)
next
  case True
  from assms(3) have k: "(- cap) div 2 < 0" by simp
  have d: "distinct (slice_from ((- cap) div 2) (f S))"
    unfolding slice_from_neg [OF k] using assms(2) by simp
  have "length (slice_from ((- cap) div 2) (f S)) \<le> nat (- ((- cap) div 2))"
    unfolding slice_from_neg [OF k] by (simp; linarith)
  moreover have "int (nat (- ((- cap) div 2))) \<le> cap" using assms(3) by (simp; linarith)
  ultimately have "int (length (slice_from ((- cap) div 2) (f S))) \<le> cap" by linarith
  with True d show ?thesis by (simp add: compact_def Let_def distinct_card)
qed

lemma dedup_capacity:
  assumes pm: "process_message e msg h st = (r, evs, st')"
    and k: "k = (channel_id_of (m_peer_id msg), m_id msg)"
    and cap: "1 \<le> max_tracked_messages st"
    and le: "int (card (forwarded_messages st)) \<le> max_tracked_messages st"
    and en: "set (list_of_set e (insert k (forwarded_messages st))) = insert k (forwarded_messages st)"
    and di: "distinct (list_of_set e (insert k (forwarded_messages st)))"
  shows "int (card (forwarded_messages st')) \<le> max_tracked_messages st' \<and>
     forwarded_messages st' \<subseteq> insert k (forwarded_messages st)"
proof (cases r)
  case False
  with process_message_state(1,3) [OF pm refl k refl] le show ?thesis by auto
next
  case True
  with process_message_state(1,3) [OF pm refl k refl]
  have f: "forwarded_messages st' =
      compact (list_of_set e) (max_tracked_messages st) (insert k (forwarded_messages st))"
    and m: "max_tracked_messages st' = max_tracked_messages st"
    by simp_all
  from compact_card_le [of "list_of_set e" "insert k (forwarded_messages st)", OF en di cap]
    compact_subset [of "list_of_set e" "insert k (forwarded_messages st)", OF en]
  show ?thesis
    unfolding f m by simp
qed

lemma old_keys_facts:
  "length old_keys = 10000" "distinct old_keys" "(Some 1, 10001) \<notin> set old_keys"
  "card (set old_keys) = 10000"
proof -
  show l: "length old_keys = 10000" by (simp add: old_keys_def)
  show d: "distinct old_keys"
    unfolding old_keys_def by (simp add: distinct_map inj_on_def)
  show "(Some 1, 10001) \<notin> set old_keys" unfolding old_keys_def by auto
  from d l show "card (set old_keys) = 10000" by (simp add: distinct_card)
qed

text \<open>
  Claim C4.  The size of the set stays within the capacity (\<open>dedup_capacity\<close>), but
  which keys survive a compaction depends on the order in which \<open>list(...)\<close> enumerates
  the set, and that is not the order of insertion.  When the set holds 10,000 keys and a
  message is forwarded successfully, the set is cut down to the last 5,000 keys of the
  enumeration of its 10,001 keys; whenever the new key is not among them, the compaction
  drops the key that was inserted in the same call.
\<close>

theorem compaction_drops_new_key:
  assumes pm: "process_message e msg h st = (True, evs, st')"
    and k: "k = (channel_id_of (m_peer_id msg), m_id msg)"
    and mt: "max_tracked_messages st = 10000"
    and cd: "card (forwarded_messages st) = 10000"
    and en: "set (list_of_set e (insert k (forwarded_messages st))) = insert k (forwarded_messages st)"
    and di: "distinct (list_of_set e (insert k (forwarded_messages st)))"
    and ps: "k \<in> set (take 5001 (list_of_set e (insert k (forwarded_messages st))))"
  shows "k \<notin> forwarded_messages st' \<and> card (forwarded_messages st') = 5000 \<and>
     forwarded_messages st' = set (drop 5001 (list_of_set e (insert k (forwarded_messages st))))"
proof -
  define L where "L = list_of_set e (insert k (forwarded_messages st))"
  from cd have fin: "finite (forwarded_messages st)" by (simp add: card_ge_0_finite)
  from process_message_shapes [OF pm refl k] have nk: "k \<notin> forwarded_messages st" by simp
  with fin cd have c1: "card (insert k (forwarded_messages st)) = 10001" by simp
  with en di have len: "length L = 10001" unfolding L_def by (metis distinct_card)
  from process_message_state(1) [OF pm refl k refl] mt
  have "forwarded_messages st' = compact (list_of_set e) 10000 (insert k (forwarded_messages st))"
    by simp
  also have "\<dots> = set (slice_from (- 5000) L)"
    unfolding compact_def L_def c1 by simp
  also have "slice_from (- 5000) L = drop 5001 L"
    by (simp add: slice_from_def len)
  finally have f: "forwarded_messages st' = set (drop 5001 L)" .
  from di have "set (take 5001 L) \<inter> set (drop 5001 L) = {}"
    unfolding L_def by (rule set_take_disj_set_drop_if_distinct) simp
  with ps have "k \<notin> set (drop 5001 L)" unfolding L_def by blast
  moreover from di have "card (set (drop 5001 L)) = 5000"
    unfolding L_def [symmetric] by (simp add: distinct_card len)
  ultimately show ?thesis using f unfolding L_def by simp
qed

lemma full_client_step:
  "process_message newest_first_env new_message False full_client =
     (True,
      [Forward (Some 1, 10001)
         (fst (forward_message newest_first_env
            (full_client\<lparr>rate_limiter := (RateLimiter_init 60 20)\<lparr>channel_messages := [1 \<mapsto> []]\<rparr>\<rparr>)
            new_message False))
         (Inr ()),
       Recorded (Some 1) 101],
      on_success newest_first_env (Some 1) (Some 1, 10001)
        ((RateLimiter_init 60 20)\<lparr>channel_messages := [1 \<mapsto> []]\<rparr>) full_client)"
proof -
  have m: "m_text new_message = Some (lit ''We deploy at noon.'')"
      "channel_id_of (m_peer_id new_message) = Some 1" "m_id new_message = 10001"
    by (simp_all add: new_message_def short_message_def channel_id_of_def del: lit_Cons lit_Nil)
  have s: "keyword_matcher full_client = KeywordMatcher_init [lit ''deploy'']"
      "forwarded_messages full_client = set old_keys"
      "rate_limiter full_client = RateLimiter_init 60 20"
      "last_forward_time full_client = Map.empty" "on_message_forwarded full_client = False"
    by (simp_all add: full_client_def example_client_fields)
  have e: "get_entity newest_first_env = Inr (Some (lit ''News''))"
      "send_message newest_first_env = Inr ()" "time_can_send newest_first_env = 100"
      "time_record newest_first_env = 101"
    by (simp_all add: newest_first_env_def example_env_fields)
  show ?thesis
    by (subst deploy_step [OF m(1) s(1), where title = "Some (lit ''News'')" and
          rl = "(RateLimiter_init 60 20)\<lparr>channel_messages := [1 \<mapsto> []]\<rparr>"])
       (simp_all add: m s e old_keys_facts can_send_init del: lit_Cons lit_Nil)
qed

theorem compaction_drops_new_key_witness:
  "fst (process_message newest_first_env new_message False full_client) \<and>
   max_tracked_messages full_client = 10000 \<and>
   card (forwarded_messages full_client) = 10000 \<and>
   (Some 1, 10001) \<notin>
     forwarded_messages (snd (snd (process_message newest_first_env new_message False full_client))) \<and>
   card (forwarded_messages (snd (snd (process_message newest_first_env new_message False full_client))))
     = 5000"
proof -
  have k: "(Some 1, 10001) = (channel_id_of (m_peer_id new_message), m_id new_message)"
    by (simp add: new_message_def channel_id_of_def)
  have mt: "max_tracked_messages full_client = 10000"
    by (simp add: full_client_def example_client_fields)
  have f: "forwarded_messages full_client = set old_keys"
    by (simp add: full_client_def)
  have cd: "card (forwarded_messages full_client) = 10000"
    unfolding f by (rule old_keys_facts)
  have l: "list_of_set newest_first_env S = (Some 1, 10001) # old_keys" for S
    by (simp add: newest_first_env_def)
  have en: "set (list_of_set newest_first_env (insert (Some 1, 10001) (forwarded_messages full_client))) =
      insert (Some 1, 10001) (forwarded_messages full_client)"
    unfolding l f by simp
  have di: "distinct (list_of_set newest_first_env (insert (Some 1, 10001) (forwarded_messages full_client)))"
    unfolding l by (simp add: old_keys_facts)
  have ps: "(Some 1, 10001) \<in>
      set (take 5001 (list_of_set newest_first_env (insert (Some 1, 10001) (forwarded_messages full_client))))"
    unfolding l by simp
  from compaction_drops_new_key [OF full_client_step k mt cd en di ps]
  have a: "(Some 1, 10001) \<notin> forwarded_messages
        (on_success newest_first_env (Some 1) (Some 1, 10001)
          ((RateLimiter_init 60 20)\<lparr>channel_messages := [1 \<mapsto> []]\<rparr>) full_client)"
    "card (forwarded_messages
        (on_success newest_first_env (Some 1) (Some 1, 10001)
          ((RateLimiter_init 60 20)\<lparr>channel_messages := [1 \<mapsto> []]\<rparr>) full_client)) = 5000"
    by blast+
  show ?thesis
    unfolding full_client_step fst_conv snd_conv using a mt cd by blast
qed

end
